theory Spec2Isabelle
  imports Main "HOL-Library.Word" "HOL-Library.AList"
begin

section \<open>Data model of the kernel image accessor\<close>

text \<open>
  The binary image accessor (\<^verbatim>\<open>elf.py\<close>) is an external collaborator of
  \<^verbatim>\<open>kernel.py\<close>. Its data is taken as it is consumed there: symbols with a name,
  a virtual address, a size and a type, sections with an address and a size, the raw
  bytes of the file, and the name-keyed dictionaries as association lists in insertion
  order (the order \<^verbatim>\<open>.values()\<close> iterates in).
\<close>

type_synonym byte = "8 word"

record Symbol =
  sym_name :: string
  sym_vaddr :: nat
  sym_size :: nat
  sym_type :: string

record Section =
  sec_name :: string
  sec_vaddr :: nat
  sec_size :: nat

text \<open>
  The text of a banner and the output of a command are Python strings that a regular
  expression reads character by character: they are lists of code points, of any size.
  \<open>ascii\<close> gives the code points of a string of ASCII characters.
\<close>

type_synonym pystr = "nat list"

definition ascii :: "string \<Rightarrow> pystr" where
  "ascii s = map of_char s"

datatype banner = Str pystr | Bytes "byte list"

record ELF =
  elf_file :: "byte list"
  elf_symbols :: "(string \<times> Symbol) list"
  elf_functions :: "(string \<times> Symbol) list"
  elf_sections :: "(string \<times> Section) list"
  elf_bits32 :: bool
  elf_big_endian :: bool
  elf_has_debug_info :: bool
  elf_vaddr_to_file_offset :: "nat \<Rightarrow> nat"
  elf_vaddr_read :: "nat \<Rightarrow> nat \<Rightarrow> byte list"
  elf_read_symbol :: "Symbol \<Rightarrow> banner"
  elf_vaddr_read_string :: "nat \<Rightarrow> banner"

text \<open>
  Every exception that can leave the code under study: \<^verbatim>\<open>struct.error\<close>, the
  \<^verbatim>\<open>KeyError\<close> of a dictionary subscript (by name or by address), a failed
  \<^verbatim>\<open>assert\<close>, \<^verbatim>\<open>KernelVersionError\<close>, a failed decoding of the banner, an
  attribute or an operator applied to \<^verbatim>\<open>None\<close>, and the exit of
  \<^verbatim>\<open>ensure_command\<close> when the command fails.
\<close>

datatype error =
    StructError
  | KeyError string
  | KeyError_vaddr nat
  | IndexError
  | KernelVersionError
  | UnicodeDecodeError
  | AssertionError
  | AttributeError
  | TypeError
  | CommandFailed

subsection \<open>Reading pointer-sized words\<close>

text \<open>\<^verbatim>\<open>self.__long_size = (8, 4)[self.vmlinux.bits32]\<close>\<close>

definition long_size :: "bool \<Rightarrow> nat" where
  "long_size bits32 = (if bits32 then 4 else 8)"

text \<open>
  \<^verbatim>\<open>struct.unpack('<>'[big_endian] + 'QL'[bits32], chunk)[0]\<close> on a chunk of the
  right length: an unsigned integer, least significant byte first for \<^verbatim>\<open><\<close>, most
  significant byte first for \<^verbatim>\<open>>\<close>.
\<close>

fun le_value :: "byte list \<Rightarrow> nat" where
  "le_value [] = 0"
| "le_value (b # bs) = unat b + 256 * le_value bs"

definition unpack_long :: "bool \<Rightarrow> byte list \<Rightarrow> nat" where
  "unpack_long big_endian chunk =
     (if big_endian then le_value (rev chunk) else le_value chunk)"

text \<open>
  \<^verbatim>\<open>struct.iter_unpack(fmt, buf)\<close>: raises \<^verbatim>\<open>struct.error\<close> unless the length of the
  buffer is a multiple of the size of the format, and yields one value per chunk.
\<close>

function chunks :: "nat \<Rightarrow> byte list \<Rightarrow> byte list list" where
  "chunks n buf =
     (if n = 0 \<or> buf = [] then [] else take n buf # chunks n (drop n buf))"
  by pat_completeness auto
termination
  by (relation "measure (\<lambda>(n, buf). length buf)") auto

declare chunks.simps [simp del]

definition iter_unpack_long :: "bool \<Rightarrow> bool \<Rightarrow> byte list \<Rightarrow> error + nat list" where
  "iter_unpack_long bits32 big_endian buf =
     (if length buf mod long_size bits32 \<noteq> 0 then Inl StructError
      else Inr (map (unpack_long big_endian) (chunks (long_size bits32) buf)))"

text \<open>\<^verbatim>\<open>f.seek(off); f.read(size)\<close>: at most \<open>size\<close> bytes, fewer at the end of the file.\<close>

definition read_at :: "byte list \<Rightarrow> nat \<Rightarrow> nat \<Rightarrow> byte list" where
  "read_at file off n = take n (drop off file)"

section \<open>Table Unpacker\<close>

text \<open>
  The branch of \<^verbatim>\<open>__unpack_syscall_table\<close> taken when \<^verbatim>\<open>tbl.size > 0x80\<close>: the whole
  declared size is read and unpacked; addresses outside the target section are only
  logged.
\<close>

definition strict_unpack :: "bool \<Rightarrow> bool \<Rightarrow> byte list \<Rightarrow> nat \<Rightarrow> nat \<Rightarrow> error + nat list" where
  "strict_unpack bits32 big_endian file tbl_file_off tbl_size =
     iter_unpack_long bits32 big_endian (read_at file tbl_file_off tbl_size)"

text \<open>
  The loop of the other branch. \<open>rest\<close> is the file from the read position on,
  \<open>cur_idx_vaddr\<close> the cursor, \<open>vaddrs\<close> the addresses appended so far. A read
  that returns fewer bytes than one word makes \<^verbatim>\<open>struct.unpack\<close> raise.
\<close>

function adaptive_loop ::
  "bool \<Rightarrow> bool \<Rightarrow> nat \<Rightarrow> nat \<Rightarrow> nat set \<Rightarrow> byte list \<Rightarrow> nat \<Rightarrow> nat list \<Rightarrow> error + nat list" where
  "adaptive_loop bits32 big_endian vstart vend boundaries rest cur_idx_vaddr vaddrs =
     (if length (take (long_size bits32) rest) \<noteq> long_size bits32 then Inl StructError
      else if \<not> (vstart \<le> unpack_long big_endian (take (long_size bits32) rest)
                 \<and> unpack_long big_endian (take (long_size bits32) rest) < vend)
        then Inr vaddrs
      else if cur_idx_vaddr \<in> boundaries then Inr vaddrs
      else adaptive_loop bits32 big_endian vstart vend boundaries
             (drop (long_size bits32) rest) (cur_idx_vaddr + long_size bits32)
             (vaddrs @ [unpack_long big_endian (take (long_size bits32) rest)]))"
  by pat_completeness auto
termination
  by (relation "measure (\<lambda>(bits32, big_endian, vstart, vend, boundaries, rest, cur, vaddrs). length rest)")
     (auto simp: long_size_def split: if_splits)

declare adaptive_loop.simps [simp del]

text \<open>
  \<^verbatim>\<open>boundaries\<close>: the addresses of all symbols whose type is not \<^verbatim>\<open>FUNC\<close>, with the
  address of the table discarded.
\<close>

definition boundaries_of :: "Symbol list \<Rightarrow> nat \<Rightarrow> nat set" where
  "boundaries_of symbol_values tbl_vaddr =
     set (map sym_vaddr (filter (\<lambda>x. sym_type x \<noteq> ''FUNC'') symbol_values)) - {tbl_vaddr}"

definition adaptive_unpack ::
  "bool \<Rightarrow> bool \<Rightarrow> byte list \<Rightarrow> Symbol list \<Rightarrow> nat \<Rightarrow> nat \<Rightarrow> nat \<Rightarrow> nat \<Rightarrow> error + nat list" where
  "adaptive_unpack bits32 big_endian file symbol_values tbl_file_off tbl_vaddr vstart vend =
     adaptive_loop bits32 big_endian vstart vend (boundaries_of symbol_values tbl_vaddr)
       (drop tbl_file_off file) tbl_vaddr []"

text \<open>\<^verbatim>\<open>Kernel.__unpack_syscall_table\<close> (logging left out: it has no effect on the result).\<close>

definition unpack_syscall_table :: "ELF \<Rightarrow> Symbol \<Rightarrow> Section \<Rightarrow> error + nat list" where
  "unpack_syscall_table vmlinux tbl target_section =
     (let tbl_file_off = elf_vaddr_to_file_offset vmlinux (sym_vaddr tbl);
          vstart = sec_vaddr target_section;
          vend = vstart + sec_size target_section
      in if sym_size tbl > 0x80
         then strict_unpack (elf_bits32 vmlinux) (elf_big_endian vmlinux) (elf_file vmlinux)
                tbl_file_off (sym_size tbl)
         else adaptive_unpack (elf_bits32 vmlinux) (elf_big_endian vmlinux) (elf_file vmlinux)
                (map snd (elf_symbols vmlinux)) tbl_file_off (sym_vaddr tbl) vstart vend)"

text \<open>
  The word at slot \<open>i\<close> of the table, and whether the file still holds that word in
  full. They are used to state what the unpacker returns.
\<close>

definition table_word :: "bool \<Rightarrow> bool \<Rightarrow> byte list \<Rightarrow> nat \<Rightarrow> nat \<Rightarrow> nat" where
  "table_word bits32 big_endian file off i =
     unpack_long big_endian (read_at file (off + i * long_size bits32) (long_size bits32))"

definition word_complete :: "bool \<Rightarrow> byte list \<Rightarrow> nat \<Rightarrow> nat \<Rightarrow> bool" where
  "word_complete bits32 file off i = (off + (i + 1) * long_size bits32 \<le> length file)"

section \<open>Syscalls and the architecture profile\<close>

type_synonym version = "nat list"
type_synonym path = string
type_synonym signature = "string list"

record Syscall =
  sc_index :: "nat option"
  sc_number :: int
  sc_name :: string
  sc_origname :: string
  sc_symbol :: Symbol
  sc_kconfig :: "string option"
  sc_signature :: "signature option"
  sc_esoteric :: bool
  sc_file :: "path option"
  sc_line :: "nat option"
  sc_good_location :: bool

text \<open>
  Modelled from the spec: the constructor \<^verbatim>\<open>Syscall(index, number, name, origname, symbol,
  kconfig, signature=None, esoteric=False)\<close> of \<^verbatim>\<open>syscall.py\<close>, which is not among the
  sources. The identity fields are the arguments; the enrichment fields (file, line, good
  location) are empty until the enrichment collaborators fill them.
\<close>

definition new_Syscall ::
  "nat option \<Rightarrow> int \<Rightarrow> string \<Rightarrow> string \<Rightarrow> Symbol \<Rightarrow> string option \<Rightarrow> signature option \<Rightarrow> bool \<Rightarrow> Syscall" where
  "new_Syscall idx num name origname symbol kdeps sig eso =
     \<lparr>sc_index = idx, sc_number = num, sc_name = name, sc_origname = origname,
      sc_symbol = symbol, sc_kconfig = kdeps, sc_signature = sig, sc_esoteric = eso,
      sc_file = None, sc_line = None, sc_good_location = False\<rparr>"

text \<open>
  The architecture profile (\<^verbatim>\<open>arch\<close> package, not among the sources), as the record of the
  attributes and methods that \<^verbatim>\<open>kernel.py\<close> uses. The version-keyed tables
  \<^verbatim>\<open>esoteric_syscalls\<close> and \<^verbatim>\<open>kconfig\<close> are functions of the version.
\<close>

record Arch =
  arch_name :: string
  arch_bits32 :: bool
  arch_syscall_table_name :: string
  arch_uses_function_descriptors :: bool
  arch_syscall_num_base :: int
  arch_symbol_is_ni_syscall :: "Symbol \<Rightarrow> bool"
  arch_preferred_symbol :: "Symbol \<Rightarrow> Symbol \<Rightarrow> Symbol"
  arch_translate_syscall_symbol_name :: "string \<Rightarrow> string"
  arch_normalize_syscall_name :: "string \<Rightarrow> string"
  arch_skip_syscall :: "Syscall \<Rightarrow> bool"
  arch_is_dummy_syscall :: "Syscall \<Rightarrow> ELF \<Rightarrow> bool"
  arch_esoteric_syscalls :: "version \<Rightarrow> (int \<times> string \<times> string \<times> signature option) list"
  arch_config_target :: string
  arch_kconfig :: "version \<Rightarrow> string list"
  arch_matches :: "ELF \<Rightarrow> bool"

text \<open>
  The helper functions imported from the other modules of the package, none of them
  among the sources. \<^verbatim>\<open>adjust_abi\<close> mutates the architecture object and so returns the
  new one; the two enrichment collaborators mutate the syscalls of the list they are given
  and so return the new list; \<^verbatim>\<open>path_match\<close> is \<^verbatim>\<open>Path.match\<close>,
  \<^verbatim>\<open>path_join\<close> is the operator \<^verbatim>\<open>/\<close> of paths and \<^verbatim>\<open>utf8_decode\<close> is
  \<^verbatim>\<open>bytes.decode\<close>, \<open>None\<close> when it raises. \<^verbatim>\<open>unicode_decimal\<close> is the table
  of the decimal digits of Unicode (category Nd): the value of a code point that is such
  a digit, which is what \<^verbatim>\<open>\d\<close> matches in a string and what \<^verbatim>\<open>int\<close> reads, and
  \<open>None\<close> for every other code point. \<^verbatim>\<open>patch_optimization_level\<close> is
  the regular-expression search and the splice of \<^verbatim>\<open>__try_set_optimization_level\<close>:
  the text of the Makefile with the level of \<^verbatim>\<open>KBUILD_CFLAGS += -O2\<close> replaced,
  \<open>None\<close> when the pattern does not match.
\<close>

record Externals =
  adjust_abi :: "Arch \<Rightarrow> ELF \<Rightarrow> Arch"
  common_syscall_symbol_prefixes :: "string list \<Rightarrow> nat \<Rightarrow> string list"
  noprefix :: "string \<Rightarrow> string list \<Rightarrow> string"
  kconfig_syscall_deps :: "string \<Rightarrow> version \<Rightarrow> string option"
  extract_syscall_locations ::
    "Syscall list \<Rightarrow> ELF \<Rightarrow> path option \<Rightarrow> path option \<Rightarrow> Arch \<Rightarrow> Syscall list"
  extract_syscall_signatures :: "Syscall list \<Rightarrow> ELF \<Rightarrow> bool \<Rightarrow> Syscall list"
  path_match :: "path \<Rightarrow> string \<Rightarrow> bool"
  utf8_decode :: "byte list \<Rightarrow> pystr option"
  unicode_decimal :: "nat \<Rightarrow> nat option"
  path_join :: "path \<Rightarrow> string \<Rightarrow> path"
  kconfig_debugging :: "version \<Rightarrow> string list"
  kconfig_compatibility :: "version \<Rightarrow> string list"
  kconfig_more_syscalls :: "version \<Rightarrow> string list"
  patch_optimization_level :: "string \<Rightarrow> nat \<Rightarrow> string option"

section \<open>Function-Descriptor Resolver\<close>

text \<open>
  One step of the translation loop: read one word at the descriptor's address and unpack
  it (\<^verbatim>\<open>struct.unpack\<close> raises unless the read returned exactly one word). An
  address outside \<^verbatim>\<open>.text\<close> is only logged.
\<close>

fun translate_descriptors :: "ELF \<Rightarrow> nat list \<Rightarrow> nat list \<Rightarrow> error + nat list" where
  "translate_descriptors vmlinux [] vaddrs = Inr vaddrs"
| "translate_descriptors vmlinux (desc_vaddr # descriptors) vaddrs =
     (if length (elf_vaddr_read vmlinux desc_vaddr (long_size (elf_bits32 vmlinux)))
           \<noteq> long_size (elf_bits32 vmlinux)
      then Inl StructError
      else translate_descriptors vmlinux descriptors
             (vaddrs @ [unpack_long (elf_big_endian vmlinux)
                          (elf_vaddr_read vmlinux desc_vaddr (long_size (elf_bits32 vmlinux)))]))"

text \<open>
  Lines 261 to 286 of \<^verbatim>\<open>__extract_syscalls\<close>: the decoded addresses, \<open>None\<close> where
  the method logs and returns the empty list (no \<^verbatim>\<open>.opd\<close> section).
\<close>

definition read_table :: "Arch \<Rightarrow> ELF \<Rightarrow> Symbol \<Rightarrow> error + nat list option" where
  "read_table arch vmlinux tbl =
     (case map_of (elf_sections vmlinux) ''.text'' of
        None \<Rightarrow> Inl (KeyError ''.text'')
      | Some text \<Rightarrow>
          if arch_uses_function_descriptors arch then
            (case map_of (elf_sections vmlinux) ''.opd'' of
               None \<Rightarrow> Inr None
             | Some opd \<Rightarrow>
                 (case unpack_syscall_table vmlinux tbl opd of
                    Inl e \<Rightarrow> Inl e
                  | Inr descriptors \<Rightarrow>
                      (case translate_descriptors vmlinux descriptors [] of
                         Inl e \<Rightarrow> Inl e
                       | Inr vaddrs \<Rightarrow> Inr (Some vaddrs))))
          else
            (case unpack_syscall_table vmlinux tbl text of
               Inl e \<Rightarrow> Inl e
             | Inr vaddrs \<Rightarrow> Inr (Some vaddrs)))"

section \<open>Symbol Resolver and Collision Arbiter\<close>

text \<open>
  \<^verbatim>\<open>ni_syscalls\<close> is a Python set; it is kept as the list of its members, in the order
  in which the loop over \<^verbatim>\<open>vmlinux.functions.values()\<close> finds them, and membership is
  membership in that list.
\<close>

definition find_ni_syscalls :: "Arch \<Rightarrow> ELF \<Rightarrow> Symbol list" where
  "find_ni_syscalls arch vmlinux =
     filter (arch_symbol_is_ni_syscall arch) (map snd (elf_functions vmlinux))"

text \<open>
  \<^verbatim>\<open>symbols_by_vaddr\<close> is a dictionary: an association list with the update of
  \<^theory_text>\<open>AList\<close>, which replaces the value of a key that is present and appends a new key.
  \<^verbatim>\<open>{sym.vaddr: sym for sym in ni_syscalls}\<close>:
\<close>

definition seed_symbols_by_vaddr :: "Symbol list \<Rightarrow> (nat \<times> Symbol) list" where
  "seed_symbols_by_vaddr ni_syscalls =
     foldl (\<lambda>d s. AList.update (sym_vaddr s) s d) [] ni_syscalls"

text \<open>The body of the loop of lines 311 to 332, for one symbol of the image.\<close>

definition resolve_step ::
  "Arch \<Rightarrow> Symbol list \<Rightarrow> nat list \<Rightarrow> (nat \<times> Symbol) list \<Rightarrow> Symbol \<Rightarrow> (nat \<times> Symbol) list" where
  "resolve_step arch ni_syscalls vaddrs symbols_by_vaddr symbol =
     (if sym_vaddr symbol \<notin> set vaddrs then symbols_by_vaddr
      else case map_of symbols_by_vaddr (sym_vaddr symbol) of
             None \<Rightarrow> AList.update (sym_vaddr symbol) symbol symbols_by_vaddr
           | Some other \<Rightarrow>
               if symbol = other then symbols_by_vaddr
               else if other \<in> set ni_syscalls \<and> symbol \<notin> set ni_syscalls
                 then symbols_by_vaddr
               else AList.update (sym_vaddr symbol)
                      (arch_preferred_symbol arch symbol other) symbols_by_vaddr)"

definition resolve_symbols ::
  "Arch \<Rightarrow> Symbol list \<Rightarrow> nat list \<Rightarrow> Symbol list \<Rightarrow> (nat \<times> Symbol) list" where
  "resolve_symbols arch ni_syscalls vaddrs symbol_values =
     foldl (resolve_step arch ni_syscalls vaddrs) (seed_symbols_by_vaddr ni_syscalls)
       symbol_values"

text \<open>
  \<^verbatim>\<open>sorted(Counter(vaddrs).items(), key=itemgetter(1), reverse=True)\<close>: the distinct
  addresses in the order of their first occurrence, each with its number of occurrences,
  sorted by decreasing number; both sorts are stable.
\<close>

definition counts :: "nat list \<Rightarrow> (nat \<times> nat) list" where
  "counts vaddrs =
     sort_key (\<lambda>(va, n). - int n)
       (map (\<lambda>va. (va, count_list vaddrs va)) (rev (remdups (rev vaddrs))))"

text \<open>
  \<^verbatim>\<open>best = symbols_by_vaddr[counts[0][0]]\<close>: a subscript, which raises where the
  address has no symbol. What follows it in the sanity check only logs.
\<close>

definition best_symbol :: "(nat \<times> Symbol) list \<Rightarrow> nat list \<Rightarrow> error + Symbol" where
  "best_symbol symbols_by_vaddr vaddrs =
     (case counts vaddrs of
        [] \<Rightarrow> Inl IndexError
      | (va, n) # rest \<Rightarrow>
          (case map_of symbols_by_vaddr va of
             None \<Rightarrow> Inl (KeyError_vaddr va)
           | Some best \<Rightarrow> Inr best))"

section \<open>Name/Number Normalizer\<close>

text \<open>\<^verbatim>\<open>ni_count[name] += 1\<close> on a \<^verbatim>\<open>defaultdict(int)\<close>.\<close>

fun incr :: "string \<Rightarrow> (string \<times> nat) list \<Rightarrow> (string \<times> nat) list" where
  "incr k [] = [(k, 1)]"
| "incr k ((k', n) # d) = (if k = k' then (k', n + 1) # d else (k', n) # incr k d)"

text \<open>The body of the loop of lines 364 to 379, for slot \<open>idx\<close> holding \<open>vaddr\<close>.\<close>

definition defined_step ::
  "(nat \<times> Symbol) list \<Rightarrow> Symbol list \<Rightarrow> (nat \<times> Symbol) list \<times> (string \<times> nat) list \<Rightarrow>
   nat \<times> nat \<Rightarrow> (nat \<times> Symbol) list \<times> (string \<times> nat) list" where
  "defined_step symbols_by_vaddr ni_syscalls st slot =
     (case st of (symbols, ni_count) \<Rightarrow>
      case slot of (idx, vaddr) \<Rightarrow>
        (case map_of symbols_by_vaddr vaddr of
           None \<Rightarrow> (symbols, ni_count)
         | Some s \<Rightarrow>
             if s \<in> set ni_syscalls then (symbols, incr (sym_name s) ni_count)
             else (symbols @ [(idx, s)], ni_count)))"

definition filter_defined ::
  "(nat \<times> Symbol) list \<Rightarrow> Symbol list \<Rightarrow> nat list \<Rightarrow>
   (nat \<times> Symbol) list \<times> (string \<times> nat) list" where
  "filter_defined symbols_by_vaddr ni_syscalls vaddrs =
     foldl (defined_step symbols_by_vaddr ni_syscalls) ([], []) (enumerate 0 vaddrs)"

text \<open>Lines 392 to 403: the syscall built for slot \<open>idx\<close> and its symbol.\<close>

definition make_syscall ::
  "Externals \<Rightarrow> Arch \<Rightarrow> version \<Rightarrow> string list \<Rightarrow> nat \<Rightarrow> Symbol \<Rightarrow> Syscall" where
  "make_syscall ext arch version prefixes idx symbol =
     (let num = arch_syscall_num_base arch + int idx;
          origname = arch_translate_syscall_symbol_name arch
                       (noprefix ext (sym_name symbol) prefixes);
          name = arch_normalize_syscall_name arch origname;
          kdeps = kconfig_syscall_deps ext name version;
          kdeps = (if kdeps = None \<or> kdeps = Some [] then kconfig_syscall_deps ext origname version
                   else kdeps)
      in new_Syscall (Some idx) num name origname symbol kdeps None False)"

definition build_step ::
  "Externals \<Rightarrow> Arch \<Rightarrow> version \<Rightarrow> string list \<Rightarrow> Syscall list \<times> nat \<Rightarrow>
   nat \<times> Symbol \<Rightarrow> Syscall list \<times> nat" where
  "build_step ext arch version prefixes st slot =
     (case st of (syscalls, n_skipped) \<Rightarrow>
      case slot of (idx, symbol) \<Rightarrow>
        (let sc = make_syscall ext arch version prefixes idx symbol
         in if arch_skip_syscall arch sc then (syscalls, n_skipped + 1)
            else (syscalls @ [sc], n_skipped)))"

definition build_syscalls ::
  "Externals \<Rightarrow> Arch \<Rightarrow> version \<Rightarrow> string list \<Rightarrow> (nat \<times> Symbol) list \<Rightarrow> Syscall list \<times> nat" where
  "build_syscalls ext arch version prefixes symbols =
     foldl (build_step ext arch version prefixes) ([], 0) symbols"

text \<open>
  Lines 417 to 419: \<^verbatim>\<open>self.vmlinux.symbols[sym_name]\<close> is a subscript and raises
  \<^verbatim>\<open>KeyError\<close> where the name is not a key.
\<close>

fun add_esoteric ::
  "(string \<times> Symbol) list \<Rightarrow> (int \<times> string \<times> string \<times> signature option) list \<Rightarrow>
   Syscall list \<Rightarrow> error + Syscall list" where
  "add_esoteric symbols [] syscalls = Inr syscalls"
| "add_esoteric symbols ((num, name, symbol_name, sig) # esoteric) syscalls =
     (case map_of symbols symbol_name of
        None \<Rightarrow> Inl (KeyError symbol_name)
      | Some s \<Rightarrow>
          add_esoteric symbols esoteric
            (syscalls @ [new_Syscall None num name name s None sig True]))"

text \<open>
  Lines 359 to 424: the syscalls before enrichment, with the three counters of the
  assertion of line 426 (\<^verbatim>\<open>ni_total\<close>, \<^verbatim>\<open>n_skipped\<close>, \<^verbatim>\<open>n_esoteric\<close>).
\<close>

definition normalize_counters ::
  "Externals \<Rightarrow> Arch \<Rightarrow> ELF \<Rightarrow> version \<Rightarrow> nat list \<Rightarrow> (nat \<times> Symbol) list \<Rightarrow> Symbol list \<Rightarrow>
   error + (Syscall list \<times> nat \<times> nat \<times> nat)" where
  "normalize_counters ext arch vmlinux version vaddrs symbols_by_vaddr ni_syscalls =
     (let symbols = fst (filter_defined symbols_by_vaddr ni_syscalls vaddrs);
          ni_count = snd (filter_defined symbols_by_vaddr ni_syscalls vaddrs);
          symbol_names = map (\<lambda>(idx, s). sym_name s) symbols;
          prefixes = common_syscall_symbol_prefixes ext symbol_names 20;
          syscalls = fst (build_syscalls ext arch version prefixes symbols);
          n_skipped = snd (build_syscalls ext arch version prefixes symbols);
          esoteric = arch_esoteric_syscalls arch version;
          n_esoteric = length esoteric
      in (case add_esoteric (elf_symbols vmlinux) esoteric syscalls of
            Inl e \<Rightarrow> Inl e
          | Inr syscalls \<Rightarrow>
              Inr (syscalls, sum_list (map snd ni_count), n_skipped, n_esoteric)))"

text \<open>Line 426: the assertion.\<close>

definition normalize_syscalls ::
  "Externals \<Rightarrow> Arch \<Rightarrow> ELF \<Rightarrow> version \<Rightarrow> nat list \<Rightarrow> (nat \<times> Symbol) list \<Rightarrow> Symbol list \<Rightarrow>
   error + Syscall list" where
  "normalize_syscalls ext arch vmlinux version vaddrs symbols_by_vaddr ni_syscalls =
     (case normalize_counters ext arch vmlinux version vaddrs symbols_by_vaddr ni_syscalls of
        Inl e \<Rightarrow> Inl e
      | Inr (syscalls, ni_total, n_skipped, n_esoteric) \<Rightarrow>
          if int (length syscalls) =
             int (length vaddrs) - int ni_total - int n_skipped + int n_esoteric
          then Inr syscalls else Inl AssertionError)"

section \<open>Implementation Filter\<close>

text \<open>
  The two \<^verbatim>\<open>continue\<close> statements of the loop of lines 440 to 493: whether the syscall
  is left out of \<^verbatim>\<open>implemented\<close>. The three lists of diagnostics built in the same
  loop are only logged.
\<close>

definition filter_drops :: "Externals \<Rightarrow> Arch \<Rightarrow> ELF \<Rightarrow> Syscall \<Rightarrow> bool" where
  "filter_drops ext arch vmlinux sc =
     (if \<not> sc_esoteric sc then
        (if arch_is_dummy_syscall arch sc vmlinux then True
         else (case sc_file sc of
                 None \<Rightarrow> False
               | Some file \<Rightarrow>
                   \<not> sc_good_location sc \<and> path_match ext file ''**/kernel/sys_ni.c''))
      else False)"

definition implementation_filter :: "Externals \<Rightarrow> Arch \<Rightarrow> ELF \<Rightarrow> Syscall list \<Rightarrow> Syscall list" where
  "implementation_filter ext arch vmlinux syscalls =
     filter (\<lambda>sc. \<not> filter_drops ext arch vmlinux sc) syscalls"

text \<open>Lines 359 to 504: normalisation, enrichment and the filter.\<close>

definition finish_extraction ::
  "Externals \<Rightarrow> Arch \<Rightarrow> ELF \<Rightarrow> path option \<Rightarrow> path option \<Rightarrow> version \<Rightarrow> nat list \<Rightarrow>
   (nat \<times> Symbol) list \<Rightarrow> Symbol list \<Rightarrow> error + Syscall list" where
  "finish_extraction ext arch vmlinux kdir rdir version vaddrs symbols_by_vaddr ni_syscalls =
     (case normalize_syscalls ext arch vmlinux version vaddrs symbols_by_vaddr ni_syscalls of
        Inl e \<Rightarrow> Inl e
      | Inr syscalls \<Rightarrow>
          (let syscalls = extract_syscall_locations ext syscalls vmlinux kdir rdir arch;
               syscalls = extract_syscall_signatures ext syscalls vmlinux (kdir \<noteq> None)
           in Inr (implementation_filter ext arch vmlinux syscalls)))"

section \<open>The extraction as a whole\<close>

text \<open>
  Lines 248 to 357 of \<^verbatim>\<open>__extract_syscalls\<close>, for the architecture after
  \<^verbatim>\<open>adjust_abi\<close>: the decoded addresses, the address-to-symbol map and the placeholders;
  \<open>None\<close> where the method logs a critical message and returns the empty list.
\<close>

definition resolve_table ::
  "Arch \<Rightarrow> ELF \<Rightarrow> error + (nat list \<times> (nat \<times> Symbol) list \<times> Symbol list) option" where
  "resolve_table arch vmlinux =
     (case map_of (elf_symbols vmlinux) (arch_syscall_table_name arch) of
        None \<Rightarrow> Inr None
      | Some tbl \<Rightarrow>
          (case read_table arch vmlinux tbl of
             Inl e \<Rightarrow> Inl e
           | Inr None \<Rightarrow> Inr None
           | Inr (Some vaddrs) \<Rightarrow>
               if vaddrs = [] then Inr None
               else let ni_syscalls = find_ni_syscalls arch vmlinux in
                 if ni_syscalls = [] then Inr None
                 else let symbols_by_vaddr =
                        resolve_symbols arch ni_syscalls vaddrs (map snd (elf_symbols vmlinux)) in
                   if symbols_by_vaddr = [] then Inr None
                   else (case best_symbol symbols_by_vaddr vaddrs of
                           Inl e \<Rightarrow> Inl e
                         | Inr best \<Rightarrow> Inr (Some (vaddrs, symbols_by_vaddr, ni_syscalls)))))"

text \<open>
  \<^verbatim>\<open>Kernel.__extract_syscalls\<close>, given the image, the directories and what the property
  \<^verbatim>\<open>self.version\<close> gives: the method reads it first at line 396 or 414, after the sanity
  check, and an exception of the property leaves the method there. Every
  \<^verbatim>\<open>return []\<close> after a critical log is \<open>Inr []\<close>.
\<close>

definition extract_syscalls ::
  "Externals \<Rightarrow> Arch \<Rightarrow> ELF \<Rightarrow> path option \<Rightarrow> path option \<Rightarrow> error + version \<Rightarrow>
   error + Syscall list" where
  "extract_syscalls ext arch0 vmlinux kdir rdir version =
     (if arch_bits32 arch0 \<noteq> elf_bits32 vmlinux then Inr []
      else let arch = adjust_abi ext arch0 vmlinux in
        case resolve_table arch vmlinux of
          Inl e \<Rightarrow> Inl e
        | Inr None \<Rightarrow> Inr []
        | Inr (Some (vaddrs, symbols_by_vaddr, ni_syscalls)) \<Rightarrow>
            (case version of
               Inl e \<Rightarrow> Inl e
             | Inr v \<Rightarrow>
                 finish_extraction ext arch vmlinux kdir rdir v vaddrs
                   symbols_by_vaddr ni_syscalls))"

section \<open>Notions used to state the properties of the extraction\<close>

text \<open>
  What a slot of the decoded sequence is, given the address-to-symbol map and the
  placeholders: without a symbol, resolved to a placeholder, or resolved to another symbol.
\<close>

definition slot_unresolved :: "(nat \<times> Symbol) list \<Rightarrow> nat \<Rightarrow> bool" where
  "slot_unresolved symbols_by_vaddr vaddr = (map_of symbols_by_vaddr vaddr = None)"

definition slot_not_implemented :: "(nat \<times> Symbol) list \<Rightarrow> Symbol list \<Rightarrow> nat \<Rightarrow> bool" where
  "slot_not_implemented symbols_by_vaddr ni_syscalls vaddr =
     (case map_of symbols_by_vaddr vaddr of None \<Rightarrow> False | Some s \<Rightarrow> s \<in> set ni_syscalls)"

definition slot_defined :: "(nat \<times> Symbol) list \<Rightarrow> Symbol list \<Rightarrow> nat \<Rightarrow> bool" where
  "slot_defined symbols_by_vaddr ni_syscalls vaddr =
     (case map_of symbols_by_vaddr vaddr of None \<Rightarrow> False | Some s \<Rightarrow> s \<notin> set ni_syscalls)"

text \<open>The defined slots with their symbols, in slot order, and the syscall of each.\<close>

definition defined_slots ::
  "(nat \<times> Symbol) list \<Rightarrow> Symbol list \<Rightarrow> nat list \<Rightarrow> (nat \<times> Symbol) list" where
  "defined_slots symbols_by_vaddr ni_syscalls vaddrs =
     map (\<lambda>(idx, vaddr). (idx, the (map_of symbols_by_vaddr vaddr)))
       (filter (\<lambda>(idx, vaddr). slot_defined symbols_by_vaddr ni_syscalls vaddr)
          (enumerate 0 vaddrs))"

definition slot_syscalls ::
  "Externals \<Rightarrow> Arch \<Rightarrow> version \<Rightarrow> nat list \<Rightarrow> (nat \<times> Symbol) list \<Rightarrow> Symbol list \<Rightarrow> Syscall list" where
  "slot_syscalls ext arch version vaddrs symbols_by_vaddr ni_syscalls =
     (let symbols = defined_slots symbols_by_vaddr ni_syscalls vaddrs;
          prefixes = common_syscall_symbol_prefixes ext (map (\<lambda>(idx, s). sym_name s) symbols) 20
      in map (\<lambda>(idx, s). make_syscall ext arch version prefixes idx s) symbols)"

text \<open>
  A hardcoded syscall and the entry of the architecture profile it comes from: number and
  name are those of the entry, the symbol is the one the symbol table has under the
  entry's symbol name.
\<close>

definition from_entry ::
  "(string \<times> Symbol) list \<Rightarrow> Syscall \<Rightarrow> int \<times> string \<times> string \<times> signature option \<Rightarrow> bool" where
  "from_entry symbols sc entry =
     (case entry of (num, name, symbol_name, sig) \<Rightarrow>
        sc_esoteric sc \<and> sc_index sc = None \<and> sc_number sc = num \<and> sc_name sc = name \<and>
        map_of symbols symbol_name = Some (sc_symbol sc))"

text \<open>
  Modelled from the spec: the contract of the two enrichment collaborators
  (\<^verbatim>\<open>location.py\<close> and \<^verbatim>\<open>signature.py\<close>, not among the sources). They fill file,
  line, good-location flag and signature of the syscalls they are given, in place; they
  add no entry, remove none, and leave the other fields as they are.
\<close>

definition same_identity :: "Syscall \<Rightarrow> Syscall \<Rightarrow> bool" where
  "same_identity a b =
     (sc_index a = sc_index b \<and> sc_number a = sc_number b \<and> sc_name a = sc_name b \<and>
      sc_origname a = sc_origname b \<and> sc_symbol a = sc_symbol b \<and>
      sc_kconfig a = sc_kconfig b \<and> sc_esoteric a = sc_esoteric b)"

definition enrichment_contract :: "Externals \<Rightarrow> bool" where
  "enrichment_contract ext =
     ((\<forall>syscalls vmlinux kdir rdir arch.
         list_all2 same_identity syscalls
           (extract_syscall_locations ext syscalls vmlinux kdir rdir arch)) \<and>
      (\<forall>syscalls vmlinux have_source.
         list_all2 same_identity syscalls
           (extract_syscall_signatures ext syscalls vmlinux have_source)))"

text \<open>Two table-derived syscalls in slot order.\<close>

definition slot_before :: "Syscall \<Rightarrow> Syscall \<Rightarrow> bool" where
  "slot_before a b =
     (case sc_index a of
        None \<Rightarrow> False
      | Some i \<Rightarrow> (case sc_index b of None \<Rightarrow> False | Some j \<Rightarrow> i < j))"

section \<open>Version Detector\<close>

definition is_digit :: "Externals \<Rightarrow> nat \<Rightarrow> bool" where
  "is_digit ext c = (unicode_decimal ext c \<noteq> None)"

text \<open>\<^verbatim>\<open>int(...)\<close> of a group of decimal digits.\<close>

definition int_of_digits :: "Externals \<Rightarrow> pystr \<Rightarrow> nat" where
  "int_of_digits ext ds =
     foldl (\<lambda>n c. 10 * n + (case unicode_decimal ext c of None \<Rightarrow> 0 | Some d \<Rightarrow> d)) 0 ds"

text \<open>
  \<^verbatim>\<open>Kernel.version_from_str\<close>: the pattern \<^verbatim>\<open>(\d+)\.(\d+)(\.(\d+))?\<close> at the start of
  the string. Each group of digits is greedy and cannot give a digit back (what follows it
  must be a dot or is free), so the match takes the longest runs of digits. The dot is
  the code point 46.
\<close>

definition version_from_str :: "Externals \<Rightarrow> pystr \<Rightarrow> version option" where
  "version_from_str ext s =
     (let a = takeWhile (is_digit ext) s; after_a = dropWhile (is_digit ext) s in
      if a = [] then None
      else case after_a of
             [] \<Rightarrow> None
           | dot # after_dot \<Rightarrow>
               if dot \<noteq> 46 then None
               else let b = takeWhile (is_digit ext) after_dot;
                        after_b = dropWhile (is_digit ext) after_dot in
                 if b = [] then None
                 else (case after_b of
                         [] \<Rightarrow> Some [int_of_digits ext a, int_of_digits ext b]
                       | dot2 # after_dot2 \<Rightarrow>
                           if dot2 = 46 \<and> takeWhile (is_digit ext) after_dot2 \<noteq> []
                           then Some [int_of_digits ext a, int_of_digits ext b,
                                      int_of_digits ext (takeWhile (is_digit ext) after_dot2)]
                           else Some [int_of_digits ext a, int_of_digits ext b]))"

text \<open>\<^verbatim>\<open>Kernel.version_from_banner\<close>; decoding the bytes of a banner may raise.\<close>

definition version_from_banner :: "Externals \<Rightarrow> banner \<Rightarrow> error + version option" where
  "version_from_banner ext banner =
     (case (case banner of Bytes bs \<Rightarrow> utf8_decode ext bs | Str s \<Rightarrow> Some s) of
        None \<Rightarrow> Inl UnicodeDecodeError
      | Some text \<Rightarrow>
          if take 14 text \<noteq> ascii ''Linux version '' then Inr None
          else Inr (version_from_str ext (drop 14 text)))"

text \<open>\<^verbatim>\<open>Kernel.__version_from_vmlinux\<close>\<close>

definition version_from_vmlinux :: "Externals \<Rightarrow> ELF \<Rightarrow> error + version option" where
  "version_from_vmlinux ext vmlinux =
     (case map_of (elf_symbols vmlinux) ''linux_banner'' of
        None \<Rightarrow> Inr None
      | Some banner \<Rightarrow>
          version_from_banner ext
            (if sym_size banner \<noteq> 0 then elf_read_symbol vmlinux banner
             else elf_vaddr_read_string vmlinux (sym_vaddr banner)))"

section \<open>The Kernel object and the world around it\<close>

text \<open>
  The fields of a \<^verbatim>\<open>Kernel\<close> object. \<open>k_version\<close>, \<open>k_version_source\<close>,
  \<open>k_syscalls\<close> and \<open>k_backup_makefile\<close> are the private attributes
  \<^verbatim>\<open>__version\<close>, \<^verbatim>\<open>__version_source\<close>, \<^verbatim>\<open>__syscalls\<close> and \<^verbatim>\<open>__backup_makefile\<close>.
\<close>

record Kernel =
  k_kdir :: "path option"
  k_outdir :: "path option"
  k_rdir :: "path option"
  k_vmlinux :: "ELF option"
  k_arch :: Arch
  k_toolchain_prefix :: "string option"
  k_version :: "version option"
  k_version_source :: "string option"
  k_syscalls :: "Syscall list option"
  k_backup_makefile :: "string option"

text \<open>
  What the methods do to the world outside the object: they run commands
  (\<^verbatim>\<open>ensure_command\<close> returns the output or leaves with an error, \<^verbatim>\<open>run_command\<close>
  returns the exit status), edit the configuration file, read and write the Makefile,
  register and unregister an exit handler, and ask for the number of processors and for
  an absolute path. The world is a state \<open>'w\<close> about which nothing is assumed.
\<close>

datatype command = Shell string | Argv "string list"

record 'w World =
  w_ensure_command :: "command \<Rightarrow> path option \<Rightarrow> string option \<Rightarrow> 'w \<Rightarrow> (error + pystr) \<times> 'w"
  w_run_command :: "command \<Rightarrow> path option \<Rightarrow> string option \<Rightarrow> 'w \<Rightarrow> int \<times> 'w"
  w_edit_config :: "path option \<Rightarrow> path \<Rightarrow> string list \<Rightarrow> 'w \<Rightarrow> (error + unit) \<times> 'w"
  w_edit_config_check_deps :: "path option \<Rightarrow> path \<Rightarrow> string list \<Rightarrow> 'w \<Rightarrow> (error + unit) \<times> 'w"
  w_read_file :: "path \<Rightarrow> 'w \<Rightarrow> (error + string) \<times> 'w"
  w_write_file :: "path \<Rightarrow> string \<Rightarrow> 'w \<Rightarrow> (error + unit) \<times> 'w"
  w_atexit_register :: "'w \<Rightarrow> 'w"
  w_atexit_unregister :: "'w \<Rightarrow> 'w"
  w_sched_getaffinity :: "'w \<Rightarrow> nat"
  w_absolute :: "path \<Rightarrow> 'w \<Rightarrow> path"

text \<open>
  A method takes the object and the world and gives back both, with the value it
  returns or the exception it raises: what a method has done before it raises stays done.
\<close>

type_synonym ('a, 'w) action = "Kernel \<times> 'w \<Rightarrow> (error + 'a) \<times> Kernel \<times> 'w"

definition returns :: "'a \<Rightarrow> ('a, 'w) action" where
  "returns a s = (Inr a, s)"

definition and_then :: "('a, 'w) action \<Rightarrow> ('a \<Rightarrow> ('b, 'w) action) \<Rightarrow> ('b, 'w) action" where
  "and_then m f s = (case m s of (Inl e, s') \<Rightarrow> (Inl e, s') | (Inr a, s') \<Rightarrow> f a s')"

text \<open>\<^verbatim>\<open>self.__version = None\<close>\<close>

definition reset_version :: "(unit, 'w) action" where
  "reset_version s = (case s of (k, w) \<Rightarrow> (Inr (), k\<lparr>k_version := None\<rparr>, w))"

text \<open>\<^verbatim>\<open>Kernel.__version_from_make\<close>\<close>

definition version_from_make :: "Externals \<Rightarrow> 'w World \<Rightarrow> (version option, 'w) action" where
  "version_from_make ext W s =
     (case s of (k, w) \<Rightarrow>
        (case w_ensure_command W (Shell ''make kernelversion'') (k_kdir k) None w of
           (Inl e, w') \<Rightarrow> (Inl e, k, w')
         | (Inr v, w') \<Rightarrow> (Inr (version_from_str ext v), k, w')))"

text \<open>
  The property \<^verbatim>\<open>Kernel.version\<close>. With an empty cache it asks the image when there is
  one, and only otherwise the build tool when there is a source directory; then it raises
  if the cache is still empty.
\<close>

definition detect_version :: "Externals \<Rightarrow> 'w World \<Rightarrow> (unit, 'w) action" where
  "detect_version ext W s =
     (case s of (k, w) \<Rightarrow>
        if k_version k = None then
          (case k_vmlinux k of
             Some vmlinux \<Rightarrow>
               (case version_from_vmlinux ext vmlinux of
                  Inl e \<Rightarrow> (Inl e, k, w)
                | Inr v \<Rightarrow>
                    (Inr (), k\<lparr>k_version := v, k_version_source := Some ''vmlinux''\<rparr>, w))
           | None \<Rightarrow>
               if k_kdir k \<noteq> None then
                 (case version_from_make ext W (k, w) of
                    (Inl e, s') \<Rightarrow> (Inl e, s')
                  | (Inr v, k', w') \<Rightarrow>
                      (Inr (), k'\<lparr>k_version := v, k_version_source := Some ''make''\<rparr>, w'))
               else (Inr (), k, w))
        else (Inr (), k, w))"

definition kernel_version :: "Externals \<Rightarrow> 'w World \<Rightarrow> (version, 'w) action" where
  "kernel_version ext W =
     and_then (detect_version ext W)
       (\<lambda>u s. case s of (k, w) \<Rightarrow>
          (case k_version k of
             None \<Rightarrow> (Inl KernelVersionError, k, w)
           | Some v \<Rightarrow> (Inr v, k, w)))"

text \<open>
  \<^verbatim>\<open>Kernel.__extract_syscalls\<close> as a method of the object: \<^verbatim>\<open>adjust_abi\<close> changes
  the architecture of the object, and the version is read through the property.
\<close>

definition kernel_extract_syscalls :: "Externals \<Rightarrow> 'w World \<Rightarrow> (Syscall list, 'w) action" where
  "kernel_extract_syscalls ext W s =
     (case s of (k, w) \<Rightarrow>
        (case k_vmlinux k of
           None \<Rightarrow> (Inl AttributeError, k, w)
         | Some vmlinux \<Rightarrow>
             if arch_bits32 (k_arch k) \<noteq> elf_bits32 vmlinux then (Inr [], k, w)
             else let arch = adjust_abi ext (k_arch k) vmlinux; k = k\<lparr>k_arch := arch\<rparr> in
               (case resolve_table arch vmlinux of
                  Inl e \<Rightarrow> (Inl e, k, w)
                | Inr None \<Rightarrow> (Inr [], k, w)
                | Inr (Some (vaddrs, symbols_by_vaddr, ni_syscalls)) \<Rightarrow>
                    and_then (kernel_version ext W)
                      (\<lambda>v s. case s of (k, w) \<Rightarrow>
                         (finish_extraction ext arch vmlinux (k_kdir k) (k_rdir k) v vaddrs
                            symbols_by_vaddr ni_syscalls, k, w))
                      (k, w))))"

text \<open>The property \<^verbatim>\<open>Kernel.syscalls\<close>.\<close>

definition kernel_syscalls :: "Externals \<Rightarrow> 'w World \<Rightarrow> (Syscall list, 'w) action" where
  "kernel_syscalls ext W s =
     (case s of (k, w) \<Rightarrow>
        (case k_syscalls k of
           None \<Rightarrow>
             and_then (kernel_extract_syscalls ext W)
               (\<lambda>out s. case s of (k, w) \<Rightarrow> (Inr out, k\<lparr>k_syscalls := Some out\<rparr>, w))
               (k, w)
         | Some syscalls \<Rightarrow> (Inr syscalls, k, w)))"

section \<open>Kernel Builder\<close>

text \<open>\<^verbatim>\<open>str\<close> of a natural number.\<close>

function str_nat :: "nat \<Rightarrow> string" where
  "str_nat n = (if n < 10 then [char_of (48 + n)] else str_nat (n div 10) @ [char_of (48 + n mod 10)])"
  by pat_completeness auto
termination
  by (relation "measure (\<lambda>n. n)") auto

declare str_nat.simps [simp del]

text \<open>
  \<^verbatim>\<open>Kernel.make\<close>. Without a source directory \<^verbatim>\<open>self.kdir.absolute()\<close> raises.
\<close>

definition make :: "'w World \<Rightarrow> string \<Rightarrow> string option \<Rightarrow> bool \<Rightarrow> (int, 'w) action" where
  "make W target stdin ensure s =
     (case s of (k, w) \<Rightarrow>
        (case k_kdir k of
           None \<Rightarrow> (Inl AttributeError, k, w)
         | Some kdir \<Rightarrow>
             (let j = max (w_sched_getaffinity W w - 1) 1;
                  cmd = [''make'', ''-j'' @ str_nat j, ''ARCH='' @ arch_name (k_arch k)]
                        @ [''KCFLAGS='' @ [CHR 0x27] @ ''-fdebug-prefix-map='' @ w_absolute W kdir w
                             @ ''=.'' @ [CHR 0x27]]
                        @ (case k_toolchain_prefix k of
                             None \<Rightarrow> []
                           | Some prefix \<Rightarrow> if prefix = [] then [] else [''CROSS_COMPILE='' @ prefix])
                        @ (case k_outdir k of None \<Rightarrow> [] | Some outdir \<Rightarrow> [''O='' @ outdir])
              in if ensure then
                   (case w_ensure_command W (Argv (cmd @ [target])) (Some kdir) stdin w of
                      (Inl e, w') \<Rightarrow> (Inl e, k, w')
                    | (Inr output, w') \<Rightarrow> (Inr 0, k, w'))
                 else
                   (case w_run_command W (Argv (cmd @ [target])) (Some kdir) stdin w of
                      (status, w') \<Rightarrow> (Inr status, k, w')))))"

text \<open>Comparison of tuples of integers, \<^verbatim>\<open>a >= b\<close>.\<close>

fun tuple_ge :: "nat list \<Rightarrow> nat list \<Rightarrow> bool" where
  "tuple_ge a [] = True"
| "tuple_ge [] (y # b) = False"
| "tuple_ge (x # a) (y # b) = (y < x \<or> (x = y \<and> tuple_ge a b))"

text \<open>\<^verbatim>\<open>Kernel.sync_config\<close>\<close>

definition sync_config :: "Externals \<Rightarrow> 'w World \<Rightarrow> (unit, 'w) action" where
  "sync_config ext W =
     and_then (kernel_version ext W)
       (\<lambda>v. if tuple_ge v [3, 7]
             then and_then (make W ''olddefconfig'' None True) (\<lambda>status. returns ())
             else and_then (make W ''oldconfig'' (Some (replicate 1000 (CHR 0x0A))) True)
                    (\<lambda>status. returns ()))"

text \<open>\<^verbatim>\<open>Kernel.clean\<close>\<close>

definition clean :: "'w World \<Rightarrow> (unit, 'w) action" where
  "clean W =
     and_then reset_version
       (\<lambda>u. and_then (make W ''distclean'' None True) (\<lambda>status. returns ()))"

text \<open>
  One of the four blocks of \<^verbatim>\<open>Kernel.configure\<close>: the configurations for the version are
  computed (reading the property \<^verbatim>\<open>self.version\<close>), the configuration file is edited,
  and the configuration is synchronised.
\<close>

definition apply_configs ::
  "Externals \<Rightarrow> 'w World \<Rightarrow>
   (path option \<Rightarrow> path \<Rightarrow> string list \<Rightarrow> 'w \<Rightarrow> (error + unit) \<times> 'w) \<Rightarrow>
   path \<Rightarrow> (Kernel \<Rightarrow> version \<Rightarrow> string list) \<Rightarrow> (unit, 'w) action" where
  "apply_configs ext W edit config_file configs =
     and_then (kernel_version ext W)
       (\<lambda>v. and_then
               (\<lambda>s. case s of (k, w) \<Rightarrow>
                  (case edit (k_kdir k) config_file (configs k v) w of
                     (r, w') \<Rightarrow> (r, k, w')))
               (\<lambda>u. sync_config ext W))"

text \<open>
  \<^verbatim>\<open>config_file = (self.outdir or self.kdir) / '.config'\<close>, the first statement of
  \<^verbatim>\<open>Kernel.configure\<close>: it raises when both directories are \<^verbatim>\<open>None\<close>.
\<close>

definition config_file_of :: "Externals \<Rightarrow> (path, 'w) action" where
  "config_file_of ext s =
     (case s of (k, w) \<Rightarrow>
        (case (case k_outdir k of Some outdir \<Rightarrow> Some outdir | None \<Rightarrow> k_kdir k) of
           None \<Rightarrow> (Inl TypeError, k, w)
         | Some dir \<Rightarrow> (Inr (path_join ext dir ''.config''), k, w)))"

text \<open>\<^verbatim>\<open>Kernel.configure\<close>\<close>

definition configure :: "Externals \<Rightarrow> 'w World \<Rightarrow> (unit, 'w) action" where
  "configure ext W =
     and_then (config_file_of ext)
       (\<lambda>config_file.
          and_then reset_version
            (\<lambda>u. and_then
               (\<lambda>s. case s of (k, w) \<Rightarrow> make W (arch_config_target (k_arch k)) None True (k, w))
               (\<lambda>status.
                  and_then (apply_configs ext W (w_edit_config W) config_file
                              (\<lambda>k. kconfig_debugging ext))
                    (\<lambda>u. and_then (apply_configs ext W (w_edit_config W) config_file
                                      (\<lambda>k. kconfig_compatibility ext))
                      (\<lambda>u. and_then (apply_configs ext W (w_edit_config_check_deps W) config_file
                                        (\<lambda>k. kconfig_more_syscalls ext))
                        (\<lambda>u. apply_configs ext W (w_edit_config_check_deps W) config_file
                                (\<lambda>k. arch_kconfig (k_arch k))))))))"

text \<open>\<^verbatim>\<open>Kernel.__try_set_optimization_level\<close>\<close>

definition try_set_optimization_level :: "Externals \<Rightarrow> 'w World \<Rightarrow> nat \<Rightarrow> (bool, 'w) action" where
  "try_set_optimization_level ext W lvl s =
     (case s of (k, w) \<Rightarrow>
        (case k_kdir k of
           None \<Rightarrow> (Inl TypeError, k, w)
         | Some kdir \<Rightarrow>
             (case w_read_file W (path_join ext kdir ''Makefile'') w of
                (Inl e, w') \<Rightarrow> (Inl e, k, w')
              | (Inr data, w') \<Rightarrow>
                  (case patch_optimization_level ext data lvl of
                     None \<Rightarrow> (Inr False, k\<lparr>k_backup_makefile := Some data\<rparr>, w')
                   | Some patched \<Rightarrow>
                       (case w_write_file W (path_join ext kdir ''Makefile'') patched w' of
                          (Inl e, w'') \<Rightarrow> (Inl e, k\<lparr>k_backup_makefile := Some data\<rparr>, w'')
                        | (Inr u, w'') \<Rightarrow>
                            (Inr True, k\<lparr>k_backup_makefile := Some data\<rparr>, w''))))))"

text \<open>\<^verbatim>\<open>Kernel.__restore_makefile\<close>\<close>

definition restore_makefile :: "Externals \<Rightarrow> 'w World \<Rightarrow> (unit, 'w) action" where
  "restore_makefile ext W s =
     (case s of (k, w) \<Rightarrow>
        (case (case k_backup_makefile k of
                 None \<Rightarrow> (Inr (), w)
               | Some data \<Rightarrow>
                   if data = [] then (Inr (), w)
                   else (case k_kdir k of
                           None \<Rightarrow> (Inl TypeError, w)
                         | Some kdir \<Rightarrow> w_write_file W (path_join ext kdir ''Makefile'') data w)) of
           (Inl e, w') \<Rightarrow> (Inl e, k, w')
         | (Inr u, w') \<Rightarrow> (Inr (), k, w_atexit_unregister W w')))"

text \<open>
  \<^verbatim>\<open>Kernel.build\<close>. The duration it returns, a difference of two readings of a
  floating-point clock, is left out.
\<close>

definition build :: "Externals \<Rightarrow> 'w World \<Rightarrow> bool \<Rightarrow> (unit, 'w) action" where
  "build ext W try_disable_opt =
     and_then reset_version
       (\<lambda>u. let normal_build = and_then (make W ''vmlinux'' None True) (\<lambda>status. returns ()) in
          if try_disable_opt then
            and_then (try_set_optimization_level ext W 0)
              (\<lambda>patched.
                 if patched then
                   and_then (\<lambda>s. case s of (k, w) \<Rightarrow> (Inr (), k, w_atexit_register W w))
                     (\<lambda>u. and_then (make W ''vmlinux'' None False)
                        (\<lambda>res. and_then (restore_makefile ext W)
                           (\<lambda>u. if res = 0 then returns ()
                                 else and_then (try_set_optimization_level ext W 1)
                                   (\<lambda>patched. and_then (make W ''vmlinux'' None False)
                                      (\<lambda>res. and_then (restore_makefile ext W)
                                         (\<lambda>u. if res = 0 then returns ()
                                               else normal_build))))))
                 else normal_build)
          else normal_build)"

text \<open>A method leaves a part \<open>g\<close> of the object as it was, whether it returns or raises.\<close>

definition preserves :: "(Kernel \<Rightarrow> 'x) \<Rightarrow> ('a, 'w) action \<Rightarrow> bool" where
  "preserves g m = (\<forall>k w. g (fst (snd (m (k, w)))) = g k)"

text \<open>
  What a detection of the version gives for an object and a world, whatever the cache
  holds: the banner of the image when there is an image, else the output of the build
  tool when there is a source directory.
\<close>

definition fresh_version :: "Externals \<Rightarrow> 'w World \<Rightarrow> Kernel \<Rightarrow> 'w \<Rightarrow> error + version" where
  "fresh_version ext W k w =
     (case k_vmlinux k of
        Some vmlinux \<Rightarrow>
          (case version_from_vmlinux ext vmlinux of
             Inl e \<Rightarrow> Inl e
           | Inr None \<Rightarrow> Inl KernelVersionError
           | Inr (Some v) \<Rightarrow> Inr v)
      | None \<Rightarrow>
          (case k_kdir k of
             None \<Rightarrow> Inl KernelVersionError
           | Some kdir \<Rightarrow>
               (case fst (w_ensure_command W (Shell ''make kernelversion'') (Some kdir) None w) of
                  Inl e \<Rightarrow> Inl e
                | Inr output \<Rightarrow>
                    (case version_from_str ext output of
                       None \<Rightarrow> Inl KernelVersionError
                     | Some v \<Rightarrow> Inr v))))"

section \<open>Example images\<close>

text \<open>
  Small 64-bit little-endian images used to run the definitions. The code section is
  \<open>[0x1000, 0x2000)\<close>; the table is at address \<open>0x2000\<close>, which is offset \<open>0\<close> of
  the file.
\<close>

definition ex_text :: Section where
  "ex_text = \<lparr>sec_name = ''.text'', sec_vaddr = 0x1000, sec_size = 0x1000\<rparr>"

definition ex_image :: "byte list \<Rightarrow> (string \<times> Symbol) list \<Rightarrow> (string \<times> Symbol) list \<Rightarrow> ELF" where
  "ex_image file syms funcs =
     \<lparr>elf_file = file, elf_symbols = syms, elf_functions = funcs,
      elf_sections = [(''.text'', ex_text)], elf_bits32 = False, elf_big_endian = False,
      elf_has_debug_info = False, elf_vaddr_to_file_offset = (\<lambda>v. v - 0x2000),
      elf_vaddr_read = (\<lambda>v n. []), elf_read_symbol = (\<lambda>s. Bytes []),
      elf_vaddr_read_string = (\<lambda>v. Bytes [])\<rparr>"

text \<open>A table that declares 16 bytes: the word \<open>0x1000\<close>, then the word \<open>0\<close>.\<close>

definition tbl16 :: Symbol where
  "tbl16 = \<lparr>sym_name = ''sys_call_table'', sym_vaddr = 0x2000, sym_size = 16,
             sym_type = ''OBJECT''\<rparr>"

definition image16 :: ELF where
  "image16 = ex_image [0x00, 0x10, 0, 0, 0, 0, 0, 0, 0, 0, 0, 0, 0, 0, 0, 0]
               [(''sys_call_table'', tbl16)] []"

text \<open>A table that declares 136 bytes, 17 words \<open>0x1000\<close>.\<close>

definition tbl136 :: Symbol where
  "tbl136 = \<lparr>sym_name = ''sys_call_table'', sym_vaddr = 0x2000, sym_size = 136,
              sym_type = ''OBJECT''\<rparr>"

definition image136 :: ELF where
  "image136 = ex_image
       [0x00, 0x10, 0, 0, 0, 0, 0, 0,
        0x00, 0x10, 0, 0, 0, 0, 0, 0,
        0x00, 0x10, 0, 0, 0, 0, 0, 0,
        0x00, 0x10, 0, 0, 0, 0, 0, 0,
        0x00, 0x10, 0, 0, 0, 0, 0, 0,
        0x00, 0x10, 0, 0, 0, 0, 0, 0,
        0x00, 0x10, 0, 0, 0, 0, 0, 0,
        0x00, 0x10, 0, 0, 0, 0, 0, 0,
        0x00, 0x10, 0, 0, 0, 0, 0, 0,
        0x00, 0x10, 0, 0, 0, 0, 0, 0,
        0x00, 0x10, 0, 0, 0, 0, 0, 0,
        0x00, 0x10, 0, 0, 0, 0, 0, 0,
        0x00, 0x10, 0, 0, 0, 0, 0, 0,
        0x00, 0x10, 0, 0, 0, 0, 0, 0,
        0x00, 0x10, 0, 0, 0, 0, 0, 0,
        0x00, 0x10, 0, 0, 0, 0, 0, 0,
        0x00, 0x10, 0, 0, 0, 0, 0, 0]
       [(''sys_call_table'', tbl136)] []"

text \<open>
  A table of declared size 0 with a second symbol, not a function, at the address of the
  table; the file holds the word \<open>0x1000\<close>, then the word \<open>0\<close>.
\<close>

definition tbl0 :: Symbol where
  "tbl0 = \<lparr>sym_name = ''sys_call_table'', sym_vaddr = 0x2000, sym_size = 0,
            sym_type = ''OBJECT''\<rparr>"

definition tbl0_alias :: Symbol where
  "tbl0_alias = \<lparr>sym_name = ''__syscall_start'', sym_vaddr = 0x2000, sym_size = 0,
                  sym_type = ''NOTYPE''\<rparr>"

definition image0 :: ELF where
  "image0 = ex_image [0x00, 0x10, 0, 0, 0, 0, 0, 0, 0, 0, 0, 0, 0, 0, 0, 0]
              [(''sys_call_table'', tbl0), (''__syscall_start'', tbl0_alias)] []"

text \<open>
  An image for the whole extraction. The table has declared size 0 and holds the words
  \<open>0x1100\<close>, \<open>0x1200\<close>, \<open>0x1300\<close> and then \<open>0\<close>, which ends the scan.
  \<open>sys_ni_syscall\<close> at \<open>0x1100\<close> is the placeholder, \<open>__x64_sys_read\<close> and
  \<open>__x64_sys_write\<close> are at \<open>0x1200\<close> and \<open>0x1300\<close>, and \<open>sys_hidden\<close> backs the
  hardcoded entry of the example architecture.
\<close>

definition ex_file3 :: "byte list" where
  "ex_file3 =
     [0, 0x11, 0, 0, 0, 0, 0, 0,
      0, 0x12, 0, 0, 0, 0, 0, 0,
      0, 0x13, 0, 0, 0, 0, 0, 0,
      0, 0, 0, 0, 0, 0, 0, 0]"

definition sys_call_table :: Symbol where
  "sys_call_table = \<lparr>sym_name = ''sys_call_table'', sym_vaddr = 0x2000, sym_size = 0,
                      sym_type = ''OBJECT''\<rparr>"

definition sys_ni_syscall :: Symbol where
  "sys_ni_syscall = \<lparr>sym_name = ''sys_ni_syscall'', sym_vaddr = 0x1100, sym_size = 16,
                      sym_type = ''FUNC''\<rparr>"

definition sys_read :: Symbol where
  "sys_read = \<lparr>sym_name = ''__x64_sys_read'', sym_vaddr = 0x1200, sym_size = 16,
                sym_type = ''FUNC''\<rparr>"

definition sys_write :: Symbol where
  "sys_write = \<lparr>sym_name = ''__x64_sys_write'', sym_vaddr = 0x1300, sym_size = 16,
                 sym_type = ''FUNC''\<rparr>"

definition sys_hidden :: Symbol where
  "sys_hidden = \<lparr>sym_name = ''sys_hidden'', sym_vaddr = 0x1400, sym_size = 16,
                  sym_type = ''FUNC''\<rparr>"

text \<open>An alias of the placeholder's address that is not a placeholder.\<close>

definition ni_alias :: Symbol where
  "ni_alias = \<lparr>sym_name = ''sys_old_stub'', sym_vaddr = 0x1100, sym_size = 16,
                sym_type = ''FUNC''\<rparr>"

definition image3 :: ELF where
  "image3 = ex_image ex_file3
     [(''sys_call_table'', sys_call_table), (''sys_ni_syscall'', sys_ni_syscall),
      (''__x64_sys_read'', sys_read), (''__x64_sys_write'', sys_write),
      (''sys_hidden'', sys_hidden)]
     [(''sys_ni_syscall'', sys_ni_syscall), (''__x64_sys_read'', sys_read),
      (''__x64_sys_write'', sys_write), (''sys_hidden'', sys_hidden)]"

text \<open>The same image without the symbol \<open>__x64_sys_read\<close>: slot 1 has no symbol.\<close>

definition image3_stripped :: ELF where
  "image3_stripped = ex_image ex_file3
     [(''sys_call_table'', sys_call_table), (''sys_ni_syscall'', sys_ni_syscall),
      (''__x64_sys_write'', sys_write), (''sys_hidden'', sys_hidden)]
     [(''sys_ni_syscall'', sys_ni_syscall), (''__x64_sys_write'', sys_write),
      (''sys_hidden'', sys_hidden)]"

text \<open>
  An architecture profile: numbering base 4000, the placeholder recognised by its name,
  no slot skipped, no dummy symbol, one hardcoded entry whose symbol is given as a
  parameter.
\<close>

definition ex_arch :: "string \<Rightarrow> Arch" where
  "ex_arch hidden_symbol =
     \<lparr>arch_name = ''x86'', arch_bits32 = False, arch_syscall_table_name = ''sys_call_table'',
      arch_uses_function_descriptors = False, arch_syscall_num_base = 4000,
      arch_symbol_is_ni_syscall = (\<lambda>s. sym_name s = ''sys_ni_syscall''),
      arch_preferred_symbol = (\<lambda>a b. a),
      arch_translate_syscall_symbol_name = (\<lambda>n. n),
      arch_normalize_syscall_name = (\<lambda>n. n),
      arch_skip_syscall = (\<lambda>sc. False),
      arch_is_dummy_syscall = (\<lambda>sc vmlinux. False),
      arch_esoteric_syscalls = (\<lambda>v. [(9000, ''hidden'', hidden_symbol, None)]),
      arch_config_target = ''defconfig'',
      arch_kconfig = (\<lambda>v. []),
      arch_matches = (\<lambda>vmlinux. True)\<rparr>"

text \<open>Helpers that do nothing: no prefix found, no dependency, enrichment fills nothing. Only
  ASCII bytes are decoded and only the ASCII digits are in the table of digits.\<close>

definition ex_ext :: Externals where
  "ex_ext =
     \<lparr>adjust_abi = (\<lambda>arch vmlinux. arch),
      common_syscall_symbol_prefixes = (\<lambda>names n. []),
      noprefix = (\<lambda>n prefixes. n),
      kconfig_syscall_deps = (\<lambda>n v. None),
      extract_syscall_locations = (\<lambda>syscalls vmlinux kdir rdir arch. syscalls),
      extract_syscall_signatures = (\<lambda>syscalls vmlinux have_source. syscalls),
      path_match = (\<lambda>p pattern. False),
      utf8_decode = (\<lambda>bs. if list_all (\<lambda>b. b < 0x80) bs then Some (map unat bs) else None),
      unicode_decimal = (\<lambda>c. if 48 \<le> c \<and> c \<le> 57 then Some (c - 48) else None),
      path_join = (\<lambda>p n. p @ ''/'' @ n),
      kconfig_debugging = (\<lambda>v. []),
      kconfig_compatibility = (\<lambda>v. []),
      kconfig_more_syscalls = (\<lambda>v. []),
      patch_optimization_level = (\<lambda>text lvl. None)\<rparr>"

text \<open>The addresses decoded from \<open>ex_file3\<close> and the map that resolution gives for \<open>image3\<close>.\<close>

definition ex_vaddrs3 :: "nat list" where
  "ex_vaddrs3 = [0x1100, 0x1200, 0x1300]"

definition ex_map3 :: "(nat \<times> Symbol) list" where
  "ex_map3 = [(0x1100, sys_ni_syscall), (0x1200, sys_read), (0x1300, sys_write)]"

text \<open>
  An image in which \<open>sys_ni_syscall\<close> lies at \<open>0x1400\<close> and no symbol lies at
  \<open>0x1100\<close>, the address of slot 0.
\<close>

definition sys_ni_syscall_far :: Symbol where
  "sys_ni_syscall_far = \<lparr>sym_name = ''sys_ni_syscall'', sym_vaddr = 0x1400, sym_size = 16,
                          sym_type = ''FUNC''\<rparr>"

definition image3_first_unresolved :: ELF where
  "image3_first_unresolved = ex_image ex_file3
     [(''sys_call_table'', sys_call_table), (''sys_ni_syscall'', sys_ni_syscall_far),
      (''__x64_sys_read'', sys_read), (''__x64_sys_write'', sys_write)]
     [(''sys_ni_syscall'', sys_ni_syscall_far), (''__x64_sys_read'', sys_read),
      (''__x64_sys_write'', sys_write)]"

text \<open>What the extraction returns for \<open>image3\<close>.\<close>

definition ex_out3 :: "Syscall list" where
  "ex_out3 =
     [new_Syscall (Some 1) 4001 ''__x64_sys_read'' ''__x64_sys_read'' sys_read None None False,
      new_Syscall (Some 2) 4002 ''__x64_sys_write'' ''__x64_sys_write'' sys_write None None False,
      new_Syscall None 9000 ''hidden'' ''hidden'' sys_hidden None None True]"

text \<open>
  A world that counts the commands run: every command succeeds, \<^verbatim>\<open>make kernelversion\<close>
  prints \<open>5.10.0\<close>, the Makefile has no optimisation line to patch.
\<close>

definition ex_world :: "nat World" where
  "ex_world =
     \<lparr>w_ensure_command = (\<lambda>cmd cwd stdin w. (Inr (ascii ''5.10.0''), w + 1)),
      w_run_command = (\<lambda>cmd cwd stdin w. (0, w + 1)),
      w_edit_config = (\<lambda>kdir config_file configs w. (Inr (), w)),
      w_edit_config_check_deps = (\<lambda>kdir config_file configs w. (Inr (), w)),
      w_read_file = (\<lambda>p w. (Inr ''all:'', w)),
      w_write_file = (\<lambda>p text w. (Inr (), w)),
      w_atexit_register = (\<lambda>w. w),
      w_atexit_unregister = (\<lambda>w. w),
      w_sched_getaffinity = (\<lambda>w. 4),
      w_absolute = (\<lambda>p w. p)\<rparr>"

text \<open>
  A kernel object with an image and a source directory, with the given caches of the
  version and of the syscalls.
\<close>

definition ex_kernel :: "ELF option \<Rightarrow> version option \<Rightarrow> Syscall list option \<Rightarrow> Kernel" where
  "ex_kernel vmlinux cached_version cached_syscalls =
     \<lparr>k_kdir = Some ''/src'', k_outdir = None, k_rdir = None, k_vmlinux = vmlinux,
      k_arch = ex_arch ''sys_hidden'', k_toolchain_prefix = None,
      k_version = cached_version, k_version_source = None,
      k_syscalls = cached_syscalls, k_backup_makefile = None\<rparr>"

text \<open>An image whose symbol \<open>linux_banner\<close> reads as the banner of Linux 6.1.55.\<close>

definition linux_banner :: Symbol where
  "linux_banner = \<lparr>sym_name = ''linux_banner'', sym_vaddr = 0x3000, sym_size = 40,
                    sym_type = ''OBJECT''\<rparr>"

definition image_banner :: ELF where
  "image_banner =
     (ex_image [] [(''linux_banner'', linux_banner)] [])
       \<lparr>elf_read_symbol := (\<lambda>s. Str (ascii ''Linux version 6.1.55 (gcc 12.2.0) #1 SMP''))\<rparr>"

text \<open>
  A kernel object made from an image alone, with neither a source nor an output
  directory; its caches hold the version 5.10 and the three syscalls of \<open>image3\<close>.
\<close>

definition ex_kernel_image_only :: Kernel where
  "ex_kernel_image_only =
     (ex_kernel (Some image_banner) (Some [5, 10]) (Some ex_out3))\<lparr>k_kdir := None\<rparr>"

section \<open>Verification: Table Unpacker\<close>

lemma long_size_pos: "0 < long_size b"
  by (simp add: long_size_def)

lemma length_chunks_mult:
  "0 < n \<Longrightarrow> length buf = k * n \<Longrightarrow> length (chunks n buf) = k"
proof (induction k arbitrary: buf)
  case 0
  then show ?case by (simp add: chunks.simps)
next
  case (Suc k)
  then have ne: "buf \<noteq> []" by auto
  have "length (drop n buf) = k * n" using Suc.prems by simp
  then have "length (chunks n (drop n buf)) = k" using Suc.IH Suc.prems(1) by blast
  then show ?case using ne Suc.prems(1) by (subst chunks.simps) simp
qed

lemma length_chunks:
  "0 < n \<Longrightarrow> n dvd length buf \<Longrightarrow> length (chunks n buf) = length buf div n"
  using length_chunks_mult [of n buf "length buf div n"] by simp

lemma chunks_nth:
  "0 < n \<Longrightarrow> i * n < length buf \<Longrightarrow> chunks n buf ! i = take n (drop (i * n) buf)"
proof (induction i arbitrary: buf)
  case 0
  then show ?case by (subst chunks.simps) auto
next
  case (Suc i)
  then have ne: "buf \<noteq> []" by auto
  have "i * n < length (drop n buf)" using Suc.prems by simp
  then have "chunks n (drop n buf) ! i = take n (drop (i * n) (drop n buf))"
    using Suc.IH Suc.prems(1) by blast
  then show ?case using ne Suc.prems(1)
    by (subst chunks.simps) (simp add: add.commute)
qed

lemma strict_unpack_length:
  assumes "off + n \<le> length file" "long_size bits32 dvd n"
  shows "\<exists>vaddrs. strict_unpack bits32 big_endian file off n = Inr vaddrs \<and>
           length vaddrs = n div long_size bits32 \<and>
           (\<forall>i<length vaddrs. vaddrs ! i = table_word bits32 big_endian file off i)"
proof -
  let ?ls = "long_size bits32"
  let ?buf = "read_at file off n"
  have len: "length ?buf = n" using assms(1) by (simp add: read_at_def)
  have lc: "length (chunks ?ls ?buf) = n div ?ls"
    using length_chunks [of ?ls ?buf] assms(2) len long_size_pos by simp
  have nth: "map (unpack_long big_endian) (chunks ?ls ?buf) ! i = table_word bits32 big_endian file off i"
    if "i < n div ?ls" for i
  proof -
    have "i * ?ls < n" using that long_size_pos [of bits32]
      by (metis assms(2) dvd_div_mult_self mult_less_cancel2)
    moreover have "i * ?ls + ?ls \<le> n" using that assms(2) long_size_pos [of bits32]
      by (metis Suc_leI dvd_div_mult_self mult_Suc mult_le_mono1 add.commute)
    ultimately have "chunks ?ls ?buf ! i = read_at file (off + i * ?ls) ?ls"
      using chunks_nth [of ?ls i ?buf] long_size_pos [of bits32] len
      by (simp add: read_at_def take_drop min_def add.commute)
    then show ?thesis using that lc by (simp add: table_word_def)
  qed
  show ?thesis
    using len lc nth assms(2) by (simp add: strict_unpack_def iter_unpack_long_def)
qed

text \<open>
  C1, as the code has it. The unpacker decodes the declared size at once (the strict
  branch) exactly when that size is above \<open>0x80\<close> bytes, and scans word by word (the
  adaptive branch) for every declared size up to \<open>0x80\<close> bytes, so also for 8. Above \<open>0x80\<close>, when the file holds the declared bytes
  and the size is a multiple of the pointer width, the result has exactly size divided by
  pointer width entries, entry \<open>i\<close> being word \<open>i\<close> of the table; when the bytes read
  are not a multiple of the pointer width, unpacking raises.
\<close>

theorem unpack_mode_by_declared_size:
  "(sym_size tbl \<le> 0x80 \<longrightarrow>
      unpack_syscall_table vmlinux tbl target_section =
      adaptive_unpack (elf_bits32 vmlinux) (elf_big_endian vmlinux) (elf_file vmlinux)
        (map snd (elf_symbols vmlinux)) (elf_vaddr_to_file_offset vmlinux (sym_vaddr tbl))
        (sym_vaddr tbl) (sec_vaddr target_section)
        (sec_vaddr target_section + sec_size target_section)) \<and>
   (0x80 < sym_size tbl \<longrightarrow>
      unpack_syscall_table vmlinux tbl target_section =
      strict_unpack (elf_bits32 vmlinux) (elf_big_endian vmlinux) (elf_file vmlinux)
        (elf_vaddr_to_file_offset vmlinux (sym_vaddr tbl)) (sym_size tbl)) \<and>
   (0x80 < sym_size tbl \<and>
    elf_vaddr_to_file_offset vmlinux (sym_vaddr tbl) + sym_size tbl \<le> length (elf_file vmlinux) \<and>
    long_size (elf_bits32 vmlinux) dvd sym_size tbl \<longrightarrow>
      (\<exists>vaddrs. unpack_syscall_table vmlinux tbl target_section = Inr vaddrs \<and>
         length vaddrs = sym_size tbl div long_size (elf_bits32 vmlinux) \<and>
         (\<forall>i<length vaddrs. vaddrs ! i =
            table_word (elf_bits32 vmlinux) (elf_big_endian vmlinux) (elf_file vmlinux)
              (elf_vaddr_to_file_offset vmlinux (sym_vaddr tbl)) i))) \<and>
   (0x80 < sym_size tbl \<and>
    \<not> long_size (elf_bits32 vmlinux) dvd
        length (read_at (elf_file vmlinux) (elf_vaddr_to_file_offset vmlinux (sym_vaddr tbl)) (sym_size tbl)) \<longrightarrow>
      unpack_syscall_table vmlinux tbl target_section = Inl StructError)"
proof (intro conjI impI)
  assume "sym_size tbl \<le> 0x80"
  then show "unpack_syscall_table vmlinux tbl target_section =
      adaptive_unpack (elf_bits32 vmlinux) (elf_big_endian vmlinux) (elf_file vmlinux)
        (map snd (elf_symbols vmlinux)) (elf_vaddr_to_file_offset vmlinux (sym_vaddr tbl))
        (sym_vaddr tbl) (sec_vaddr target_section)
        (sec_vaddr target_section + sec_size target_section)"
    by (simp add: unpack_syscall_table_def Let_def)
next
  assume "0x80 < sym_size tbl"
  then show "unpack_syscall_table vmlinux tbl target_section =
      strict_unpack (elf_bits32 vmlinux) (elf_big_endian vmlinux) (elf_file vmlinux)
        (elf_vaddr_to_file_offset vmlinux (sym_vaddr tbl)) (sym_size tbl)"
    by (simp add: unpack_syscall_table_def Let_def)
next
  assume a: "0x80 < sym_size tbl \<and>
    elf_vaddr_to_file_offset vmlinux (sym_vaddr tbl) + sym_size tbl \<le> length (elf_file vmlinux) \<and>
    long_size (elf_bits32 vmlinux) dvd sym_size tbl"
  then have "unpack_syscall_table vmlinux tbl target_section =
     strict_unpack (elf_bits32 vmlinux) (elf_big_endian vmlinux) (elf_file vmlinux)
       (elf_vaddr_to_file_offset vmlinux (sym_vaddr tbl)) (sym_size tbl)"
    by (simp add: unpack_syscall_table_def Let_def)
  with a strict_unpack_length [of "elf_vaddr_to_file_offset vmlinux (sym_vaddr tbl)" "sym_size tbl"
      "elf_file vmlinux" "elf_bits32 vmlinux" "elf_big_endian vmlinux"]
  show "\<exists>vaddrs. unpack_syscall_table vmlinux tbl target_section = Inr vaddrs \<and>
         length vaddrs = sym_size tbl div long_size (elf_bits32 vmlinux) \<and>
         (\<forall>i<length vaddrs. vaddrs ! i =
            table_word (elf_bits32 vmlinux) (elf_big_endian vmlinux) (elf_file vmlinux)
              (elf_vaddr_to_file_offset vmlinux (sym_vaddr tbl)) i)"
    by simp
next
  assume "0x80 < sym_size tbl \<and>
    \<not> long_size (elf_bits32 vmlinux) dvd
        length (read_at (elf_file vmlinux) (elf_vaddr_to_file_offset vmlinux (sym_vaddr tbl)) (sym_size tbl))"
  then show "unpack_syscall_table vmlinux tbl target_section = Inl StructError"
    by (simp add: unpack_syscall_table_def Let_def strict_unpack_def iter_unpack_long_def dvd_eq_mod_eq_0)
qed

text \<open>
  The theorem at the image whose table declares 136 bytes: the declared bytes are in the
  file, 8 divides 136, and 17 entries are decoded.
\<close>

theorem unpack_mode_by_declared_size_witness:
  "0x80 < sym_size tbl136 \<and>
   elf_vaddr_to_file_offset image136 (sym_vaddr tbl136) + sym_size tbl136 \<le> length (elf_file image136) \<and>
   long_size (elf_bits32 image136) dvd sym_size tbl136 \<and>
   (\<exists>vaddrs. unpack_syscall_table image136 tbl136 ex_text = Inr vaddrs \<and> length vaddrs = 17)"
proof -
  have h1: "0x80 < sym_size tbl136"
    by (simp add: tbl136_def)
  have h2: "elf_vaddr_to_file_offset image136 (sym_vaddr tbl136) + sym_size tbl136
              \<le> length (elf_file image136)"
    by (simp add: tbl136_def image136_def ex_image_def)
  have h3: "long_size (elf_bits32 image136) dvd sym_size tbl136"
    by (simp add: tbl136_def image136_def ex_image_def long_size_def)
  have n: "sym_size tbl136 div long_size (elf_bits32 image136) = 17"
    by (simp add: tbl136_def image136_def ex_image_def long_size_def)
  from unpack_mode_by_declared_size [of tbl136 image136 ex_text] h1 h2 h3
  obtain vaddrs where "unpack_syscall_table image136 tbl136 ex_text = Inr vaddrs"
    and "length vaddrs = sym_size tbl136 div long_size (elf_bits32 image136)"
    by blast
  with n h1 h2 h3 show ?thesis by auto
qed

text \<open>
  C1 as stated fails: a table that declares 16 bytes is larger than one 8-byte pointer,
  yet it is scanned word by word, and the result (one entry, the scan stopping at the
  second word, which is outside the code section) does not have 16 / 8 entries.
\<close>

theorem strict_above_one_pointer_counterexample:
  "long_size (elf_bits32 image16) < sym_size tbl16 \<and>
   unpack_syscall_table image16 tbl16 ex_text = Inr [0x1000] \<and>
   length [0x1000 :: nat] \<noteq> sym_size tbl16 div long_size (elf_bits32 image16)"
  by (simp add: image16_def ex_image_def tbl16_def ex_text_def unpack_syscall_table_def
      adaptive_unpack_def boundaries_of_def long_size_def adaptive_loop.simps unpack_long_def)

lemma adaptive_loop_run:
  "(\<forall>i<n. word_complete bits32 file off i \<and>
       vstart \<le> table_word bits32 big_endian file off i \<and>
       table_word bits32 big_endian file off i < vend \<and>
       cur + i * long_size bits32 \<notin> B) \<Longrightarrow>
   adaptive_loop bits32 big_endian vstart vend B (drop off file) cur acc =
   adaptive_loop bits32 big_endian vstart vend B (drop (off + n * long_size bits32) file)
     (cur + n * long_size bits32) (acc @ map (table_word bits32 big_endian file off) [0..<n])"
proof (induction n)
  case 0
  then show ?case by simp
next
  case (Suc n)
  then have IH: "adaptive_loop bits32 big_endian vstart vend B (drop off file) cur acc =
   adaptive_loop bits32 big_endian vstart vend B (drop (off + n * long_size bits32) file)
     (cur + n * long_size bits32) (acc @ map (table_word bits32 big_endian file off) [0..<n])"
    by simp
  from Suc.prems have st: "word_complete bits32 file off n"
       "vstart \<le> table_word bits32 big_endian file off n"
       "table_word bits32 big_endian file off n < vend"
       "cur + n * long_size bits32 \<notin> B" by auto
  show ?case
    apply (subst IH)
    apply (subst adaptive_loop.simps)
    using st
    apply (simp add: word_complete_def table_word_def read_at_def algebra_simps)
    done
qed

lemma adaptive_loop_eof:
  "length rest < long_size bits32 \<Longrightarrow>
   adaptive_loop bits32 big_endian vstart vend B rest cur acc = Inl StructError"
  by (subst adaptive_loop.simps) simp

lemma boundaries_of_iff:
  "a \<in> boundaries_of symbol_values tbl_vaddr \<longleftrightarrow>
     a \<noteq> tbl_vaddr \<and> (\<exists>s\<in>set symbol_values. sym_type s \<noteq> ''FUNC'' \<and> sym_vaddr s = a)"
  by (auto simp: boundaries_of_def)

text \<open>
  C7, as the code has it. For a table of declared size at most \<open>0x80\<close>: if the first
  \<open>n\<close> words of the table are in the file, lie in the target section and their cursor
  positions are not boundaries, then
  \<^item> if word \<open>n\<close> is in the file and either lies outside the target section or has its
    cursor position on a boundary, the result is exactly the first \<open>n\<close> words;
  \<^item> if word \<open>n\<close> is not in the file in full, unpacking raises;
  \<^item> a boundary is the address of a symbol that is not a function, the address of the
    table itself excepted (whichever symbol lies there).
\<close>

theorem adaptive_unpack_longest_prefix:
  assumes "sym_size tbl \<le> 0x80"
    and "\<forall>i<n. word_complete (elf_bits32 vmlinux) (elf_file vmlinux)
                 (elf_vaddr_to_file_offset vmlinux (sym_vaddr tbl)) i \<and>
          sec_vaddr sec \<le> table_word (elf_bits32 vmlinux) (elf_big_endian vmlinux) (elf_file vmlinux)
                 (elf_vaddr_to_file_offset vmlinux (sym_vaddr tbl)) i \<and>
          table_word (elf_bits32 vmlinux) (elf_big_endian vmlinux) (elf_file vmlinux)
                 (elf_vaddr_to_file_offset vmlinux (sym_vaddr tbl)) i < sec_vaddr sec + sec_size sec \<and>
          sym_vaddr tbl + i * long_size (elf_bits32 vmlinux)
            \<notin> boundaries_of (map snd (elf_symbols vmlinux)) (sym_vaddr tbl)"
  shows "(word_complete (elf_bits32 vmlinux) (elf_file vmlinux)
                 (elf_vaddr_to_file_offset vmlinux (sym_vaddr tbl)) n \<and>
          (\<not> (sec_vaddr sec \<le> table_word (elf_bits32 vmlinux) (elf_big_endian vmlinux) (elf_file vmlinux)
                 (elf_vaddr_to_file_offset vmlinux (sym_vaddr tbl)) n \<and>
               table_word (elf_bits32 vmlinux) (elf_big_endian vmlinux) (elf_file vmlinux)
                 (elf_vaddr_to_file_offset vmlinux (sym_vaddr tbl)) n < sec_vaddr sec + sec_size sec) \<or>
           sym_vaddr tbl + n * long_size (elf_bits32 vmlinux)
             \<in> boundaries_of (map snd (elf_symbols vmlinux)) (sym_vaddr tbl)) \<longrightarrow>
          unpack_syscall_table vmlinux tbl sec =
            Inr (map (table_word (elf_bits32 vmlinux) (elf_big_endian vmlinux) (elf_file vmlinux)
                 (elf_vaddr_to_file_offset vmlinux (sym_vaddr tbl))) [0..<n])) \<and>
         (\<not> word_complete (elf_bits32 vmlinux) (elf_file vmlinux)
                 (elf_vaddr_to_file_offset vmlinux (sym_vaddr tbl)) n \<longrightarrow>
          unpack_syscall_table vmlinux tbl sec = Inl StructError) \<and>
         (\<forall>a. a \<in> boundaries_of (map snd (elf_symbols vmlinux)) (sym_vaddr tbl) \<longleftrightarrow>
              a \<noteq> sym_vaddr tbl \<and>
              (\<exists>s\<in>set (map snd (elf_symbols vmlinux)). sym_type s \<noteq> ''FUNC'' \<and> sym_vaddr s = a))"
proof -
  let ?b = "elf_bits32 vmlinux" and ?e = "elf_big_endian vmlinux" and ?f = "elf_file vmlinux"
  let ?off = "elf_vaddr_to_file_offset vmlinux (sym_vaddr tbl)"
  let ?B = "boundaries_of (map snd (elf_symbols vmlinux)) (sym_vaddr tbl)"
  let ?vs = "sec_vaddr sec" and ?ve = "sec_vaddr sec + sec_size sec"
  have u: "unpack_syscall_table vmlinux tbl sec =
      adaptive_loop ?b ?e ?vs ?ve ?B (drop ?off ?f) (sym_vaddr tbl) []"
    using assms(1) by (simp add: unpack_syscall_table_def Let_def adaptive_unpack_def)
  have run: "adaptive_loop ?b ?e ?vs ?ve ?B (drop ?off ?f) (sym_vaddr tbl) [] =
      adaptive_loop ?b ?e ?vs ?ve ?B (drop (?off + n * long_size ?b) ?f)
        (sym_vaddr tbl + n * long_size ?b) ([] @ map (table_word ?b ?e ?f ?off) [0..<n])"
    by (rule adaptive_loop_run) (use assms(2) in blast)
  have stop: "adaptive_loop ?b ?e ?vs ?ve ?B (drop (?off + n * long_size ?b) ?f)
        (sym_vaddr tbl + n * long_size ?b) acc = Inr acc"
    if "word_complete ?b ?f ?off n"
       "\<not> (?vs \<le> table_word ?b ?e ?f ?off n \<and> table_word ?b ?e ?f ?off n < ?ve) \<or>
        sym_vaddr tbl + n * long_size ?b \<in> ?B" for acc
    using that
    by (subst adaptive_loop.simps)
       (auto simp: word_complete_def table_word_def read_at_def algebra_simps)
  have eof: "adaptive_loop ?b ?e ?vs ?ve ?B (drop (?off + n * long_size ?b) ?f)
        (sym_vaddr tbl + n * long_size ?b) acc = Inl StructError"
    if "\<not> word_complete ?b ?f ?off n" for acc
  proof (rule adaptive_loop_eof)
    from that have "length ?f < ?off + (n + 1) * long_size ?b"
      by (simp add: word_complete_def)
    with long_size_pos [of ?b] show "length (drop (?off + n * long_size ?b) ?f) < long_size ?b"
      by simp
  qed
  show ?thesis
    using u run stop eof boundaries_of_iff [of _ "map snd (elf_symbols vmlinux)" "sym_vaddr tbl"]
    by auto
qed

text \<open>
  The theorem at the image whose table declares size 0, with \<open>n = 1\<close>: word 0 is
  \<open>0x1000\<close>, inside the code section, and the cursor \<open>0x2000\<close> is no boundary; word 1
  is \<open>0\<close>, outside the code section; the result is the first word alone.
\<close>

theorem adaptive_unpack_longest_prefix_witness:
  "sym_size tbl0 \<le> 0x80 \<and>
   word_complete (elf_bits32 image0) (elf_file image0)
     (elf_vaddr_to_file_offset image0 (sym_vaddr tbl0)) 0 \<and>
   table_word (elf_bits32 image0) (elf_big_endian image0) (elf_file image0)
     (elf_vaddr_to_file_offset image0 (sym_vaddr tbl0)) 0 = 0x1000 \<and>
   sym_vaddr tbl0 \<notin> boundaries_of (map snd (elf_symbols image0)) (sym_vaddr tbl0) \<and>
   word_complete (elf_bits32 image0) (elf_file image0)
     (elf_vaddr_to_file_offset image0 (sym_vaddr tbl0)) 1 \<and>
   table_word (elf_bits32 image0) (elf_big_endian image0) (elf_file image0)
     (elf_vaddr_to_file_offset image0 (sym_vaddr tbl0)) 1 = 0 \<and>
   unpack_syscall_table image0 tbl0 ex_text = Inr [0x1000]"
  using adaptive_unpack_longest_prefix [of tbl0 1 image0 ex_text]
  by (simp add: image0_def ex_image_def tbl0_def tbl0_alias_def ex_text_def word_complete_def
      table_word_def read_at_def long_size_def unpack_long_def boundaries_of_def)

text \<open>
  C7 as stated fails: \<open>__syscall_start\<close> is a symbol of the image other than the table,
  it is not a function, and the cursor coincides with its address at the first step; yet
  decoding does not stop there and returns the first word.
\<close>

theorem adaptive_boundary_alias_counterexample:
  "(''__syscall_start'', tbl0_alias) \<in> set (elf_symbols image0) \<and>
   tbl0_alias \<noteq> tbl0 \<and>
   sym_type tbl0_alias \<noteq> ''FUNC'' \<and>
   sym_vaddr tbl0_alias = sym_vaddr tbl0 + 0 * long_size (elf_bits32 image0) \<and>
   unpack_syscall_table image0 tbl0 ex_text = Inr [0x1000]"
  by (simp add: image0_def ex_image_def tbl0_def tbl0_alias_def ex_text_def
      unpack_syscall_table_def adaptive_unpack_def boundaries_of_def long_size_def
      adaptive_loop.simps unpack_long_def)

section \<open>Verification: Symbol Resolver\<close>

lemma seed_fold_Some:
  "map_of (foldl (\<lambda>d s. AList.update (sym_vaddr s) s d) d xs) a = Some s \<Longrightarrow>
   map_of d a = Some s \<or> (s \<in> set xs \<and> sym_vaddr s = a)"
proof (induction xs arbitrary: d)
  case Nil
  then show ?case by simp
next
  case (Cons x xs)
  from Cons.IH [of "AList.update (sym_vaddr x) x d"] Cons.prems
  show ?case by (auto simp: update_conv' split: if_splits)
qed

lemma seed_fold_dom:
  "map_of d a \<noteq> None \<or> (\<exists>s\<in>set xs. sym_vaddr s = a) \<Longrightarrow>
   map_of (foldl (\<lambda>d s. AList.update (sym_vaddr s) s d) d xs) a \<noteq> None"
proof (induction xs arbitrary: d)
  case Nil
  then show ?case by simp
next
  case (Cons x xs)
  have "map_of (AList.update (sym_vaddr x) x d) a \<noteq> None \<or> (\<exists>s\<in>set xs. sym_vaddr s = a)"
    using Cons.prems by (auto simp: update_conv')
  from Cons.IH [OF this] show ?case by simp
qed

lemma seed_placeholder:
  assumes "p \<in> set ni"
  shows "\<exists>s\<in>set ni. sym_vaddr s = sym_vaddr p \<and>
           map_of (seed_symbols_by_vaddr ni) (sym_vaddr p) = Some s"
proof -
  have "map_of (seed_symbols_by_vaddr ni) (sym_vaddr p) \<noteq> None"
    unfolding seed_symbols_by_vaddr_def using assms by (intro seed_fold_dom) auto
  then obtain s where s: "map_of (seed_symbols_by_vaddr ni) (sym_vaddr p) = Some s" by auto
  then have "s \<in> set ni \<and> sym_vaddr s = sym_vaddr p"
    using seed_fold_Some [of "[]" ni "sym_vaddr p" s] by (simp add: seed_symbols_by_vaddr_def)
  with s show ?thesis by auto
qed

lemma seed_values:
  "map_of (seed_symbols_by_vaddr ni) a = Some s \<Longrightarrow> s \<in> set ni \<and> sym_vaddr s = a"
  using seed_fold_Some [of "[]" ni a s] by (simp add: seed_symbols_by_vaddr_def)

lemma resolve_step_keeps_unique:
  assumes "p \<in> set ni" "\<forall>q\<in>set ni. sym_vaddr q = sym_vaddr p \<longrightarrow> q = p"
    and "map_of d (sym_vaddr p) = Some p"
  shows "map_of (resolve_step arch ni vaddrs d x) (sym_vaddr p) = Some p"
  using assms by (auto simp: resolve_step_def update_conv' split: option.splits)

lemma resolve_fold_keeps_unique:
  assumes "p \<in> set ni" "\<forall>q\<in>set ni. sym_vaddr q = sym_vaddr p \<longrightarrow> q = p"
  shows "map_of d (sym_vaddr p) = Some p \<Longrightarrow>
         map_of (foldl (resolve_step arch ni vaddrs) d xs) (sym_vaddr p) = Some p"
proof (induction xs arbitrary: d)
  case Nil
  then show ?case by simp
next
  case (Cons x xs)
  show ?case using Cons.IH [OF resolve_step_keeps_unique [OF assms Cons.prems]] by simp
qed

lemma resolve_step_cases:
  "resolve_step arch ni vaddrs d x = d \<or>
   (map_of d (sym_vaddr x) = None \<and> resolve_step arch ni vaddrs d x = AList.update (sym_vaddr x) x d) \<or>
   (\<exists>other. map_of d (sym_vaddr x) = Some other \<and> \<not> (other \<in> set ni \<and> x \<notin> set ni) \<and>
      resolve_step arch ni vaddrs d x =
        AList.update (sym_vaddr x) (arch_preferred_symbol arch x other) d)"
  by (simp add: resolve_step_def split: option.splits)

lemma resolve_step_keeps_placeholder:
  assumes pref: "\<forall>a b. arch_preferred_symbol arch a b = a \<or> arch_preferred_symbol arch a b = b"
    and wk: "\<forall>a s. map_of d a = Some s \<longrightarrow> sym_vaddr s = a"
    and ph: "\<exists>s\<in>set ni. map_of d (sym_vaddr p) = Some s"
  shows "(\<forall>a s. map_of (resolve_step arch ni vaddrs d x) a = Some s \<longrightarrow> sym_vaddr s = a) \<and>
         (\<exists>s\<in>set ni. map_of (resolve_step arch ni vaddrs d x) (sym_vaddr p) = Some s)"
proof -
  consider (same) "resolve_step arch ni vaddrs d x = d"
    | (fresh) "map_of d (sym_vaddr x) = None"
        "resolve_step arch ni vaddrs d x = AList.update (sym_vaddr x) x d"
    | (tie) other where "map_of d (sym_vaddr x) = Some other"
        "\<not> (other \<in> set ni \<and> x \<notin> set ni)"
        "resolve_step arch ni vaddrs d x =
           AList.update (sym_vaddr x) (arch_preferred_symbol arch x other) d"
    using resolve_step_cases [of arch ni vaddrs d x] by (elim disjE exE conjE) auto
  then show ?thesis
  proof cases
    case same
    then show ?thesis using wk ph by simp
  next
    case fresh
    from ph fresh(1) have "sym_vaddr x \<noteq> sym_vaddr p" by auto
    then show ?thesis using wk ph fresh(2) by (simp add: update_conv')
  next
    case tie
    let ?w = "arch_preferred_symbol arch x other"
    have ov: "sym_vaddr other = sym_vaddr x" using wk tie(1) by blast
    have w: "?w = x \<or> ?w = other" using pref by blast
    then have wv: "sym_vaddr ?w = sym_vaddr x" using ov by auto
    have wni: "?w \<in> set ni" if "sym_vaddr x = sym_vaddr p"
    proof -
      from ph that tie(1) have "other \<in> set ni" by auto
      with tie(2) have "x \<in> set ni" by blast
      with \<open>other \<in> set ni\<close> w show ?thesis by auto
    qed
    show ?thesis using wk ph wv wni tie(3) by (auto simp: update_conv')
  qed
qed

lemma resolve_fold_keeps_placeholder:
  assumes pref: "\<forall>a b. arch_preferred_symbol arch a b = a \<or> arch_preferred_symbol arch a b = b"
  shows "(\<forall>a s. map_of d a = Some s \<longrightarrow> sym_vaddr s = a) \<Longrightarrow>
         (\<exists>s\<in>set ni. map_of d (sym_vaddr p) = Some s) \<Longrightarrow>
         (\<exists>s\<in>set ni. map_of (foldl (resolve_step arch ni vaddrs) d xs) (sym_vaddr p) = Some s)"
proof (induction xs arbitrary: d)
  case Nil
  then show ?case by simp
next
  case (Cons x xs)
  from resolve_step_keeps_placeholder [OF pref Cons.prems, of vaddrs x]
  show ?case using Cons.IH by simp
qed

text \<open>
  C6. Let \<open>p\<close> be a placeholder. Whatever the decoded addresses and whatever the symbols
  of the image and their order: if \<open>p\<close> is the only placeholder at its address, the
  address-to-symbol map holds \<open>p\<close> at that address; and if several placeholders share
  the address and the tie-break of the architecture returns one of its two arguments, the
  map holds one of those placeholders there. A symbol that is not a placeholder never
  takes the address.
\<close>

theorem placeholder_retained:
  assumes "p \<in> set ni_syscalls"
  shows "((\<forall>q\<in>set ni_syscalls. sym_vaddr q = sym_vaddr p \<longrightarrow> q = p) \<longrightarrow>
            map_of (resolve_symbols arch ni_syscalls vaddrs symbol_values) (sym_vaddr p) = Some p) \<and>
         ((\<forall>a b. arch_preferred_symbol arch a b = a \<or> arch_preferred_symbol arch a b = b) \<longrightarrow>
            (\<exists>s\<in>set ni_syscalls.
               map_of (resolve_symbols arch ni_syscalls vaddrs symbol_values) (sym_vaddr p) = Some s))"
proof (intro conjI impI)
  assume u: "\<forall>q\<in>set ni_syscalls. sym_vaddr q = sym_vaddr p \<longrightarrow> q = p"
  from seed_placeholder [OF assms] u
  have "map_of (seed_symbols_by_vaddr ni_syscalls) (sym_vaddr p) = Some p" by auto
  from resolve_fold_keeps_unique [OF assms u this]
  show "map_of (resolve_symbols arch ni_syscalls vaddrs symbol_values) (sym_vaddr p) = Some p"
    by (simp add: resolve_symbols_def)
next
  assume pref: "\<forall>a b. arch_preferred_symbol arch a b = a \<or> arch_preferred_symbol arch a b = b"
  have wk: "\<forall>a s. map_of (seed_symbols_by_vaddr ni_syscalls) a = Some s \<longrightarrow> sym_vaddr s = a"
    using seed_values by blast
  have ph: "\<exists>s\<in>set ni_syscalls. map_of (seed_symbols_by_vaddr ni_syscalls) (sym_vaddr p) = Some s"
    using seed_placeholder [OF assms] by blast
  from resolve_fold_keeps_placeholder [OF pref wk ph]
  show "\<exists>s\<in>set ni_syscalls.
          map_of (resolve_symbols arch ni_syscalls vaddrs symbol_values) (sym_vaddr p) = Some s"
    by (simp add: resolve_symbols_def)
qed

text \<open>
  The theorem at the placeholder \<open>sys_ni_syscall\<close> and the alias \<open>sys_old_stub\<close> of
  its address, which is not a placeholder: the map holds the placeholder whether the
  alias comes first or last.
\<close>

theorem placeholder_retained_witness:
  "sys_ni_syscall \<in> set [sys_ni_syscall] \<and>
   sym_vaddr ni_alias = sym_vaddr sys_ni_syscall \<and>
   \<not> arch_symbol_is_ni_syscall (ex_arch ''sys_hidden'') ni_alias \<and>
   map_of (resolve_symbols (ex_arch ''sys_hidden'') [sys_ni_syscall] [0x1100, 0x1200]
             [ni_alias, sys_ni_syscall, sys_read]) 0x1100 = Some sys_ni_syscall \<and>
   map_of (resolve_symbols (ex_arch ''sys_hidden'') [sys_ni_syscall] [0x1100, 0x1200]
             [sys_ni_syscall, sys_read, ni_alias]) 0x1100 = Some sys_ni_syscall"
  using placeholder_retained [of sys_ni_syscall "[sys_ni_syscall]" "ex_arch ''sys_hidden''"
          "[0x1100, 0x1200]" "[ni_alias, sys_ni_syscall, sys_read]"]
        placeholder_retained [of sys_ni_syscall "[sys_ni_syscall]" "ex_arch ''sys_hidden''"
          "[0x1100, 0x1200]" "[sys_ni_syscall, sys_read, ni_alias]"]
  by (simp add: sys_ni_syscall_def ni_alias_def ex_arch_def)

section \<open>Verification: Normalizer and Implementation Filter\<close>

lemma sum_incr: "sum_list (map snd (incr k d)) = Suc (sum_list (map snd d))"
  by (induction k d rule: incr.induct) auto

lemma slot_trichotomy:
  "(slot_unresolved d va \<and> \<not> slot_not_implemented d ni va \<and> \<not> slot_defined d ni va) \<or>
   (\<not> slot_unresolved d va \<and> slot_not_implemented d ni va \<and> \<not> slot_defined d ni va) \<or>
   (\<not> slot_unresolved d va \<and> \<not> slot_not_implemented d ni va \<and> slot_defined d ni va)"
  by (auto simp: slot_unresolved_def slot_not_implemented_def slot_defined_def split: option.splits)

lemma defined_fold:
  "foldl (defined_step d ni) (symbols, ni_count) slots = (symbols', ni_count') \<Longrightarrow>
   symbols' = symbols @ map (\<lambda>(idx, vaddr). (idx, the (map_of d vaddr)))
                          (filter (\<lambda>(idx, vaddr). slot_defined d ni vaddr) slots) \<and>
   sum_list (map snd ni_count') =
     sum_list (map snd ni_count) + length (filter (\<lambda>(idx, vaddr). slot_not_implemented d ni vaddr) slots)"
proof (induction slots arbitrary: symbols ni_count)
  case Nil
  then show ?case by simp
next
  case (Cons slot slots)
  obtain idx vaddr where slot: "slot = (idx, vaddr)" by (cases slot)
  obtain s1 c1 where st: "defined_step d ni (symbols, ni_count) slot = (s1, c1)"
    by (cases "defined_step d ni (symbols, ni_count) slot")
  from Cons.prems st have "foldl (defined_step d ni) (s1, c1) slots = (symbols', ni_count')"
    by simp
  from Cons.IH [OF this] have IH:
    "symbols' = s1 @ map (\<lambda>(idx, vaddr). (idx, the (map_of d vaddr)))
                          (filter (\<lambda>(idx, vaddr). slot_defined d ni vaddr) slots)"
    "sum_list (map snd ni_count') =
       sum_list (map snd c1) + length (filter (\<lambda>(idx, vaddr). slot_not_implemented d ni vaddr) slots)"
    by auto
  from st slot have
    "s1 = symbols @ map (\<lambda>(idx, vaddr). (idx, the (map_of d vaddr)))
                          (filter (\<lambda>(idx, vaddr). slot_defined d ni vaddr) [slot]) \<and>
     sum_list (map snd c1) = sum_list (map snd ni_count) +
        length (filter (\<lambda>(idx, vaddr). slot_not_implemented d ni vaddr) [slot])"
    by (auto simp: defined_step_def slot_defined_def slot_not_implemented_def sum_incr
             split: option.splits if_splits)
  with IH show ?case by simp
qed

lemma filter_defined_fst:
  "fst (filter_defined d ni vaddrs) = defined_slots d ni vaddrs"
  using defined_fold [of d ni "[]" "[]" "enumerate 0 vaddrs"
      "fst (filter_defined d ni vaddrs)" "snd (filter_defined d ni vaddrs)"]
  by (simp add: filter_defined_def defined_slots_def)

lemma length_filter_enumerate:
  "length (filter (\<lambda>(idx, vaddr). P vaddr) (enumerate n xs)) = length (filter P xs)"
  by (induction xs arbitrary: n) auto

lemma filter_defined_snd:
  "sum_list (map snd (snd (filter_defined d ni vaddrs))) =
   length (filter (slot_not_implemented d ni) vaddrs)"
  using defined_fold [of d ni "[]" "[]" "enumerate 0 vaddrs"
      "fst (filter_defined d ni vaddrs)" "snd (filter_defined d ni vaddrs)"]
  by (simp add: filter_defined_def length_filter_enumerate)

lemma length_defined_slots:
  "length (defined_slots d ni vaddrs) = length (filter (slot_defined d ni) vaddrs)"
  by (simp add: defined_slots_def length_filter_enumerate)

lemma slot_partition:
  "length vaddrs = length (filter (slot_defined d ni) vaddrs) +
     length (filter (slot_not_implemented d ni) vaddrs) +
     length (filter (slot_unresolved d) vaddrs)"
proof (induction vaddrs)
  case Nil
  then show ?case by simp
next
  case (Cons va vaddrs)
  then show ?case using slot_trichotomy [of d va ni] by auto
qed

lemma build_fold:
  "foldl (build_step ext arch version prefixes) (syscalls, n) symbols =
     (syscalls @ filter (\<lambda>sc. \<not> arch_skip_syscall arch sc)
                   (map (\<lambda>(idx, s). make_syscall ext arch version prefixes idx s) symbols),
      n + length (filter (arch_skip_syscall arch)
                   (map (\<lambda>(idx, s). make_syscall ext arch version prefixes idx s) symbols)))"
proof (induction symbols arbitrary: syscalls n)
  case Nil
  then show ?case by simp
next
  case (Cons slot symbols)
  obtain idx s where slot: "slot = (idx, s)" by (cases slot)
  let ?sc = "make_syscall ext arch version prefixes idx s"
  show ?case
  proof (cases "arch_skip_syscall arch ?sc")
    case True
    then have "build_step ext arch version prefixes (syscalls, n) slot = (syscalls, n + 1)"
      by (simp add: slot build_step_def Let_def)
    then have "foldl (build_step ext arch version prefixes) (syscalls, n) (slot # symbols) =
               foldl (build_step ext arch version prefixes) (syscalls, n + 1) symbols"
      by simp
    also note Cons.IH
    finally show ?thesis using True by (simp add: slot)
  next
    case False
    then have "build_step ext arch version prefixes (syscalls, n) slot = (syscalls @ [?sc], n)"
      by (simp add: slot build_step_def Let_def)
    then have "foldl (build_step ext arch version prefixes) (syscalls, n) (slot # symbols) =
               foldl (build_step ext arch version prefixes) (syscalls @ [?sc], n) symbols"
      by simp
    also note Cons.IH
    finally show ?thesis using False by (simp add: slot)
  qed
qed

lemma add_esoteric_Inr:
  "add_esoteric symbols esoteric syscalls = Inr out \<Longrightarrow>
   \<exists>hard. out = syscalls @ hard \<and> list_all2 (from_entry symbols) hard esoteric"
proof (induction symbols esoteric syscalls rule: add_esoteric.induct)
  case (1 symbols syscalls)
  then show ?case by simp
next
  case (2 symbols num name symbol_name sig esoteric syscalls)
  from "2.prems" obtain s where s: "map_of symbols symbol_name = Some s"
    by (auto split: option.splits)
  with "2.prems" have "add_esoteric symbols esoteric
            (syscalls @ [new_Syscall None num name name s None sig True]) = Inr out"
    by simp
  from "2.IH" [OF s this] obtain hard where
    hard: "out = (syscalls @ [new_Syscall None num name name s None sig True]) @ hard"
      "list_all2 (from_entry symbols) hard esoteric"
    by blast
  have "from_entry symbols (new_Syscall None num name name s None sig True)
          (num, name, symbol_name, sig)"
    using s by (simp add: from_entry_def new_Syscall_def)
  with hard show ?case
    by (intro exI [of _ "new_Syscall None num name name s None sig True # hard"]) simp
qed

lemma add_esoteric_missing:
  "(num, name, symbol_name, sig) \<in> set esoteric \<Longrightarrow> map_of symbols symbol_name = None \<Longrightarrow>
   \<exists>missing. map_of symbols missing = None \<and>
      add_esoteric symbols esoteric syscalls = Inl (KeyError missing)"
proof (induction symbols esoteric syscalls rule: add_esoteric.induct)
  case (1 symbols syscalls)
  then show ?case by simp
next
  case (2 symbols num' name' symbol_name' sig' esoteric syscalls)
  show ?case
  proof (cases "map_of symbols symbol_name'")
    case None
    then show ?thesis by auto
  next
    case (Some s)
    with "2.prems" have "(num, name, symbol_name, sig) \<in> set esoteric" by auto
    from "2.IH" [OF Some this "2.prems"(2)] Some show ?thesis by simp
  qed
qed

lemma add_esoteric_present:
  "\<forall>(num, name, symbol_name, sig)\<in>set esoteric. map_of symbols symbol_name \<noteq> None \<Longrightarrow>
   \<exists>out. add_esoteric symbols esoteric syscalls = Inr out"
proof (induction symbols esoteric syscalls rule: add_esoteric.induct)
  case (1 symbols syscalls)
  then show ?case by simp
next
  case (2 symbols num name symbol_name sig esoteric syscalls)
  then obtain s where s: "map_of symbols symbol_name = Some s" by auto
  from "2.IH" [OF s] "2.prems" s show ?case by auto
qed

lemma normalize_counters_Inr:
  assumes "normalize_counters ext arch vmlinux version vaddrs d ni =
             Inr (syscalls, ni_total, n_skipped, n_esoteric)"
  shows "\<exists>hard. syscalls = filter (\<lambda>sc. \<not> arch_skip_syscall arch sc)
                              (slot_syscalls ext arch version vaddrs d ni) @ hard \<and>
            list_all2 (from_entry (elf_symbols vmlinux)) hard (arch_esoteric_syscalls arch version)"
    and "ni_total = length (filter (slot_not_implemented d ni) vaddrs)"
    and "n_skipped = length (filter (arch_skip_syscall arch)
                               (slot_syscalls ext arch version vaddrs d ni))"
    and "n_esoteric = length (arch_esoteric_syscalls arch version)"
proof -
  let ?symbols = "defined_slots d ni vaddrs"
  let ?prefixes = "common_syscall_symbol_prefixes ext (map (\<lambda>(idx, s). sym_name s) ?symbols) 20"
  let ?built = "build_syscalls ext arch version ?prefixes ?symbols"
  have built: "?built =
      (filter (\<lambda>sc. \<not> arch_skip_syscall arch sc) (slot_syscalls ext arch version vaddrs d ni),
       length (filter (arch_skip_syscall arch) (slot_syscalls ext arch version vaddrs d ni)))"
    by (simp add: build_syscalls_def build_fold slot_syscalls_def Let_def)
  from assms obtain out where
    out: "add_esoteric (elf_symbols vmlinux) (arch_esoteric_syscalls arch version) (fst ?built) = Inr out"
    and res: "syscalls = out" "ni_total = sum_list (map snd (snd (filter_defined d ni vaddrs)))"
       "n_skipped = snd ?built" "n_esoteric = length (arch_esoteric_syscalls arch version)"
    by (auto simp: normalize_counters_def Let_def filter_defined_fst split: sum.splits)
  from add_esoteric_Inr [OF out] res(1) built
  show "\<exists>hard. syscalls = filter (\<lambda>sc. \<not> arch_skip_syscall arch sc)
                              (slot_syscalls ext arch version vaddrs d ni) @ hard \<and>
            list_all2 (from_entry (elf_symbols vmlinux)) hard (arch_esoteric_syscalls arch version)"
    by simp
  show "ni_total = length (filter (slot_not_implemented d ni) vaddrs)"
    using res(2) by (simp add: filter_defined_snd)
  show "n_skipped = length (filter (arch_skip_syscall arch)
                               (slot_syscalls ext arch version vaddrs d ni))"
    using res(3) built by simp
  show "n_esoteric = length (arch_esoteric_syscalls arch version)" by (rule res(4))
qed

lemma length_slot_syscalls:
  "length (slot_syscalls ext arch version vaddrs d ni) = length (filter (slot_defined d ni) vaddrs)"
  by (simp add: slot_syscalls_def Let_def length_defined_slots)

lemma skip_split:
  "length (filter (\<lambda>sc. \<not> P sc) xs) + length (filter P xs) = length xs"
  by (induction xs) auto

lemma normalize_counters_balance:
  assumes "normalize_counters ext arch vmlinux version vaddrs d ni =
             Inr (syscalls, ni_total, n_skipped, n_esoteric)"
  shows "int (length syscalls) =
           int (length vaddrs) - int ni_total - int n_skipped + int n_esoteric
           - int (length (filter (slot_unresolved d) vaddrs))"
proof -
  from normalize_counters_Inr [OF assms] obtain hard where
    s: "syscalls = filter (\<lambda>sc. \<not> arch_skip_syscall arch sc)
                              (slot_syscalls ext arch version vaddrs d ni) @ hard"
    and h: "list_all2 (from_entry (elf_symbols vmlinux)) hard (arch_esoteric_syscalls arch version)"
    and c: "ni_total = length (filter (slot_not_implemented d ni) vaddrs)"
       "n_skipped = length (filter (arch_skip_syscall arch)
                               (slot_syscalls ext arch version vaddrs d ni))"
       "n_esoteric = length (arch_esoteric_syscalls arch version)"
    by blast
  have lh: "length hard = n_esoteric" using h c(3) by (simp add: list_all2_lengthD)
  have "length (filter (\<lambda>sc. \<not> arch_skip_syscall arch sc) (slot_syscalls ext arch version vaddrs d ni))
          + n_skipped = length (filter (slot_defined d ni) vaddrs)"
    using skip_split [of "arch_skip_syscall arch" "slot_syscalls ext arch version vaddrs d ni"] c(2)
    by (simp add: length_slot_syscalls)
  with s lh c(1) slot_partition [of vaddrs d ni] show ?thesis by simp
qed


lemma same_identity_trans:
  "same_identity a b \<Longrightarrow> same_identity b c \<Longrightarrow> same_identity a c"
  by (simp add: same_identity_def)

lemma list_all2_same_identity_trans:
  "list_all2 same_identity xs ys \<Longrightarrow> list_all2 same_identity ys zs \<Longrightarrow>
   list_all2 same_identity xs zs"
  by (rule list_all2_trans [of same_identity same_identity same_identity])
     (auto intro: same_identity_trans)

lemma enriched_same_identity:
  assumes "enrichment_contract ext"
  shows "list_all2 same_identity syscalls
           (extract_syscall_signatures ext
              (extract_syscall_locations ext syscalls vmlinux kdir rdir arch) vmlinux have_source)"
proof -
  let ?located = "extract_syscall_locations ext syscalls vmlinux kdir rdir arch"
  from assms have "list_all2 same_identity syscalls ?located"
    by (simp add: enrichment_contract_def)
  moreover from assms have "list_all2 same_identity ?located
      (extract_syscall_signatures ext ?located vmlinux have_source)"
    by (simp add: enrichment_contract_def)
  ultimately show ?thesis by (rule list_all2_same_identity_trans)
qed

lemma defined_slots_member:
  assumes "(idx, s) \<in> set (defined_slots d ni vaddrs)"
  shows "idx < length vaddrs \<and> map_of d (vaddrs ! idx) = Some s \<and> s \<notin> set ni"
proof -
  from assms obtain va where "(idx, va) \<in> set (enumerate 0 vaddrs)"
    "slot_defined d ni va" "s = the (map_of d va)"
    by (auto simp: defined_slots_def)
  then show ?thesis
    by (auto simp: in_set_enumerate_eq slot_defined_def split: option.splits)
qed

lemma defined_slots_sorted:
  "sorted_wrt (<) (map fst (defined_slots d ni vaddrs))"
proof -
  have "map fst (defined_slots d ni vaddrs) =
        map fst (filter (\<lambda>(idx, vaddr). slot_defined d ni vaddr) (enumerate 0 vaddrs))"
    by (simp add: defined_slots_def case_prod_unfold comp_def)
  moreover have "sorted_wrt (\<lambda>a b. fst a < fst b) (enumerate 0 vaddrs)"
    using sorted_wrt_map [of "(<)" fst "enumerate 0 vaddrs"]
    by (simp add: map_fst_enumerate)
  then have "sorted_wrt (\<lambda>a b. fst a < fst b)
               (filter (\<lambda>(idx, vaddr). slot_defined d ni vaddr) (enumerate 0 vaddrs))"
    by (rule sorted_wrt_filter)
  ultimately show ?thesis by (simp add: sorted_wrt_map)
qed

lemma make_syscall_fields:
  "sc_index (make_syscall ext arch version prefixes idx s) = Some idx"
  "sc_number (make_syscall ext arch version prefixes idx s) = arch_syscall_num_base arch + int idx"
  "sc_symbol (make_syscall ext arch version prefixes idx s) = s"
  "\<not> sc_esoteric (make_syscall ext arch version prefixes idx s)"
  by (simp_all add: make_syscall_def new_Syscall_def Let_def)

lemma slot_syscalls_member:
  assumes "sc \<in> set (slot_syscalls ext arch version vaddrs d ni)"
  shows "\<not> sc_esoteric sc \<and>
         (\<exists>idx<length vaddrs. sc_index sc = Some idx \<and>
            sc_number sc = arch_syscall_num_base arch + int idx \<and>
            map_of d (vaddrs ! idx) = Some (sc_symbol sc))"
proof -
  from assms obtain idx s prefixes where
    "(idx, s) \<in> set (defined_slots d ni vaddrs)"
    "sc = make_syscall ext arch version prefixes idx s"
    by (auto simp: slot_syscalls_def Let_def)
  with defined_slots_member [of idx s d ni vaddrs] show ?thesis
    by (auto simp: make_syscall_fields)
qed

lemma slot_syscalls_sorted:
  "sorted_wrt slot_before (slot_syscalls ext arch version vaddrs d ni)"
proof -
  have "sorted_wrt (\<lambda>a b. fst a < fst b) (defined_slots d ni vaddrs)"
    using defined_slots_sorted [of d ni vaddrs] by (simp add: sorted_wrt_map)
  then show ?thesis
    unfolding slot_syscalls_def Let_def sorted_wrt_map
    by (rule sorted_wrt_mono_rel [rotated])
       (auto simp: slot_before_def make_syscall_fields)
qed

lemma normalize_counters_total:
  assumes "\<forall>(num, name, symbol_name, sig)\<in>set (arch_esoteric_syscalls arch version).
             map_of (elf_symbols vmlinux) symbol_name \<noteq> None"
  shows "\<exists>syscalls ni_total n_skipped n_esoteric.
           normalize_counters ext arch vmlinux version vaddrs d ni =
             Inr (syscalls, ni_total, n_skipped, n_esoteric)"
proof -
  let ?symbols = "fst (filter_defined d ni vaddrs)"
  let ?prefixes = "common_syscall_symbol_prefixes ext (map (\<lambda>(idx, s). sym_name s) ?symbols) 20"
  from add_esoteric_present [OF assms] obtain out where
    "add_esoteric (elf_symbols vmlinux) (arch_esoteric_syscalls arch version)
       (fst (build_syscalls ext arch version ?prefixes ?symbols)) = Inr out"
    by blast
  then show ?thesis by (simp add: normalize_counters_def Let_def)
qed

lemma add_esoteric_Inl:
  "add_esoteric symbols esoteric syscalls = Inl e \<Longrightarrow>
   \<exists>missing. e = KeyError missing \<and> map_of symbols missing = None"
proof (induction symbols esoteric syscalls rule: add_esoteric.induct)
  case (1 symbols syscalls)
  then show ?case by simp
next
  case (2 symbols num name symbol_name sig esoteric syscalls)
  show ?case
  proof (cases "map_of symbols symbol_name")
    case None
    with "2.prems" show ?thesis by auto
  next
    case (Some s)
    with "2.prems" "2.IH" [OF Some] show ?thesis by simp
  qed
qed

lemma normalize_counters_Inl:
  "normalize_counters ext arch vmlinux version vaddrs d ni = Inl e \<Longrightarrow>
   \<exists>missing. e = KeyError missing \<and> map_of (elf_symbols vmlinux) missing = None"
  by (auto simp: normalize_counters_def Let_def split: sum.splits dest: add_esoteric_Inl)

text \<open>
  C2. When every decoded address has a symbol, the list that normalisation returns has as
  many syscalls as there are decoded slots, minus the slots resolved to a placeholder,
  minus the slots the architecture skips, plus the hardcoded entries. Normalisation does
  return a list when the symbol of every hardcoded entry is in the symbol table; the only
  exception it can raise is the \<open>KeyError\<close> of a hardcoded entry whose symbol is missing,
  never the assertion of line 426.
\<close>

theorem retained_syscall_count:
  assumes "\<forall>vaddr\<in>set vaddrs. \<not> slot_unresolved symbols_by_vaddr vaddr"
  shows "(\<forall>syscalls.
            normalize_syscalls ext arch vmlinux version vaddrs symbols_by_vaddr ni_syscalls = Inr syscalls \<longrightarrow>
            int (length syscalls) =
              int (length vaddrs)
              - int (length (filter (slot_not_implemented symbols_by_vaddr ni_syscalls) vaddrs))
              - int (length (filter (arch_skip_syscall arch)
                       (slot_syscalls ext arch version vaddrs symbols_by_vaddr ni_syscalls)))
              + int (length (arch_esoteric_syscalls arch version))) \<and>
         ((\<forall>(num, name, symbol_name, sig)\<in>set (arch_esoteric_syscalls arch version).
              map_of (elf_symbols vmlinux) symbol_name \<noteq> None) \<longrightarrow>
          (\<exists>syscalls.
             normalize_syscalls ext arch vmlinux version vaddrs symbols_by_vaddr ni_syscalls = Inr syscalls)) \<and>
         (\<forall>e. normalize_syscalls ext arch vmlinux version vaddrs symbols_by_vaddr ni_syscalls = Inl e \<longrightarrow>
              (\<exists>missing. e = KeyError missing \<and> map_of (elf_symbols vmlinux) missing = None))"
proof -
  have none: "filter (slot_unresolved symbols_by_vaddr) vaddrs = []"
    using assms by (simp add: filter_empty_conv)
  have bal: "int (length syscalls) = int (length vaddrs) - int ni_total - int n_skipped + int n_esoteric"
    if "normalize_counters ext arch vmlinux version vaddrs symbols_by_vaddr ni_syscalls =
          Inr (syscalls, ni_total, n_skipped, n_esoteric)"
    for syscalls ni_total n_skipped n_esoteric
    using normalize_counters_balance [OF that] none by simp
  have count: "int (length syscalls) =
              int (length vaddrs)
              - int (length (filter (slot_not_implemented symbols_by_vaddr ni_syscalls) vaddrs))
              - int (length (filter (arch_skip_syscall arch)
                       (slot_syscalls ext arch version vaddrs symbols_by_vaddr ni_syscalls)))
              + int (length (arch_esoteric_syscalls arch version))"
    if r: "normalize_syscalls ext arch vmlinux version vaddrs symbols_by_vaddr ni_syscalls = Inr syscalls"
    for syscalls
  proof -
    from r obtain ni_total n_skipped n_esoteric where
      nc: "normalize_counters ext arch vmlinux version vaddrs symbols_by_vaddr ni_syscalls =
             Inr (syscalls, ni_total, n_skipped, n_esoteric)"
      by (auto simp: normalize_syscalls_def split: sum.splits if_splits)
    from bal [OF nc] normalize_counters_Inr(2-4) [OF nc] show ?thesis by simp
  qed
  have total: "\<exists>syscalls.
      normalize_syscalls ext arch vmlinux version vaddrs symbols_by_vaddr ni_syscalls = Inr syscalls"
    if "\<forall>(num, name, symbol_name, sig)\<in>set (arch_esoteric_syscalls arch version).
          map_of (elf_symbols vmlinux) symbol_name \<noteq> None"
  proof -
    from normalize_counters_total [OF that] obtain syscalls ni_total n_skipped n_esoteric where
      nc: "normalize_counters ext arch vmlinux version vaddrs symbols_by_vaddr ni_syscalls =
             Inr (syscalls, ni_total, n_skipped, n_esoteric)"
      by blast
    from bal [OF nc] nc show ?thesis by (simp add: normalize_syscalls_def)
  qed
  have err: "\<exists>missing. e = KeyError missing \<and> map_of (elf_symbols vmlinux) missing = None"
    if r: "normalize_syscalls ext arch vmlinux version vaddrs symbols_by_vaddr ni_syscalls = Inl e"
    for e
  proof (cases "normalize_counters ext arch vmlinux version vaddrs symbols_by_vaddr ni_syscalls")
    case (Inl e')
    with r have "e' = e" by (simp add: normalize_syscalls_def)
    with normalize_counters_Inl [OF Inl] show ?thesis by simp
  next
    case (Inr res)
    obtain syscalls ni_total n_skipped n_esoteric where
      res: "res = (syscalls, ni_total, n_skipped, n_esoteric)" by (cases res)
    from bal [OF Inr [unfolded res]] Inr res r show ?thesis
      by (simp add: normalize_syscalls_def)
  qed
  from count total err show ?thesis by blast
qed

text \<open>
  With a slot that has no symbol, the two sides of the assertion of line 426 differ by the
  number of such slots, and normalisation returns no list.
\<close>

lemma unresolved_slot_aborts:
  assumes "vaddr \<in> set vaddrs" "slot_unresolved symbols_by_vaddr vaddr"
  shows "normalize_syscalls ext arch vmlinux version vaddrs symbols_by_vaddr ni_syscalls \<noteq> Inr syscalls"
proof
  assume r: "normalize_syscalls ext arch vmlinux version vaddrs symbols_by_vaddr ni_syscalls = Inr syscalls"
  then obtain ni_total n_skipped n_esoteric where
    nc: "normalize_counters ext arch vmlinux version vaddrs symbols_by_vaddr ni_syscalls =
           Inr (syscalls, ni_total, n_skipped, n_esoteric)"
    and a: "int (length syscalls) = int (length vaddrs) - int ni_total - int n_skipped + int n_esoteric"
    by (auto simp: normalize_syscalls_def split: sum.splits if_splits)
  have "filter (slot_unresolved symbols_by_vaddr) vaddrs \<noteq> []"
    using assms by (auto simp: filter_empty_conv)
  then have "0 < length (filter (slot_unresolved symbols_by_vaddr) vaddrs)" by simp
  with normalize_counters_balance [OF nc] a show False by simp
qed


text \<open>
  The theorem at \<open>image3\<close>: three slots, one placeholder, none skipped, one hardcoded
  entry, three syscalls.
\<close>

theorem retained_syscall_count_witness:
  "filter (slot_unresolved ex_map3) ex_vaddrs3 = [] \<and>
   map (\<lambda>(num, name, symbol_name, sig). map_of (elf_symbols image3) symbol_name)
     (arch_esoteric_syscalls (ex_arch ''sys_hidden'') [5, 10]) = [Some sys_hidden] \<and>
   (\<exists>syscalls.
      normalize_syscalls ex_ext (ex_arch ''sys_hidden'') image3 [5, 10] ex_vaddrs3 ex_map3
        [sys_ni_syscall] = Inr syscalls \<and>
      int (length syscalls) = 3 - 1 - 0 + 1)"
proof -
  have h1: "\<forall>vaddr\<in>set ex_vaddrs3. \<not> slot_unresolved ex_map3 vaddr"
    by (simp add: ex_vaddrs3_def ex_map3_def slot_unresolved_def)
  have h2: "\<forall>(num, name, symbol_name, sig)\<in>set (arch_esoteric_syscalls (ex_arch ''sys_hidden'') [5, 10]).
       map_of (elf_symbols image3) symbol_name \<noteq> None"
    by (simp add: ex_arch_def image3_def ex_image_def)
  have c1: "length (filter (slot_not_implemented ex_map3 [sys_ni_syscall]) ex_vaddrs3) = 1"
    by (simp add: ex_vaddrs3_def ex_map3_def slot_not_implemented_def
          sys_ni_syscall_def sys_read_def sys_write_def)
  have c2: "length (filter (arch_skip_syscall (ex_arch ''sys_hidden''))
                      (slot_syscalls ex_ext (ex_arch ''sys_hidden'') [5, 10] ex_vaddrs3 ex_map3
                         [sys_ni_syscall])) = 0"
    by (simp add: ex_arch_def)
  have c3: "length (arch_esoteric_syscalls (ex_arch ''sys_hidden'') [5, 10]) = 1"
    by (simp add: ex_arch_def)
  have c4: "length ex_vaddrs3 = 3" by (simp add: ex_vaddrs3_def)
  have g1: "filter (slot_unresolved ex_map3) ex_vaddrs3 = []"
    using h1 by (simp add: filter_empty_conv)
  have g2: "map (\<lambda>(num, name, symbol_name, sig). map_of (elf_symbols image3) symbol_name)
     (arch_esoteric_syscalls (ex_arch ''sys_hidden'') [5, 10]) = [Some sys_hidden]"
    by (simp add: ex_arch_def image3_def ex_image_def)
  from retained_syscall_count [OF h1, of ex_ext "ex_arch ''sys_hidden''" image3 "[5, 10]"
         "[sys_ni_syscall]"] h2
  obtain syscalls where
    r: "normalize_syscalls ex_ext (ex_arch ''sys_hidden'') image3 [5, 10] ex_vaddrs3 ex_map3
          [sys_ni_syscall] = Inr syscalls"
    by blast
  with retained_syscall_count [OF h1, of ex_ext "ex_arch ''sys_hidden''" image3 "[5, 10]"
         "[sys_ni_syscall]"]
  have "int (length syscalls) =
              int (length ex_vaddrs3)
              - int (length (filter (slot_not_implemented ex_map3 [sys_ni_syscall]) ex_vaddrs3))
              - int (length (filter (arch_skip_syscall (ex_arch ''sys_hidden''))
                       (slot_syscalls ex_ext (ex_arch ''sys_hidden'') [5, 10] ex_vaddrs3 ex_map3
                          [sys_ni_syscall])))
              + int (length (arch_esoteric_syscalls (ex_arch ''sys_hidden'') [5, 10]))"
    by blast
  then have "int (length syscalls) = 3 - 1 - 0 + 1"
    unfolding c1 c2 c3 c4 by simp
  with r g1 g2 show ?thesis by blast
qed

text \<open>The definitions to unfold to run the extraction on the example images.\<close>

lemmas ex_defs = image3_def ex_image_def ex_file3_def
  sys_call_table_def sys_ni_syscall_def sys_read_def sys_write_def sys_hidden_def
  ex_arch_def ex_ext_def ex_text_def

lemmas run_defs = extract_syscalls_def resolve_table_def read_table_def unpack_syscall_table_def adaptive_unpack_def
  boundaries_of_def long_size_def adaptive_loop.simps unpack_long_def find_ni_syscalls_def
  resolve_symbols_def seed_symbols_by_vaddr_def resolve_step_def best_symbol_def counts_def
  finish_extraction_def normalize_syscalls_def normalize_counters_def filter_defined_def
  defined_step_def build_syscalls_def build_step_def make_syscall_def new_Syscall_def
  implementation_filter_def filter_drops_def enumerate_eq_zip Let_def

text \<open>
  C3 against the code. On \<open>image3\<close> the extraction returns the syscalls 4001, 4002 and
  9000. On the same image without the symbol of slot 1 the loop of lines 364 to 369 drops
  that slot, and the assertion of line 426, which does not count dropped slots, then fails:
  the run ends with \<open>AssertionError\<close> and returns nothing. Where the slot without
  symbol is the first of the most frequent addresses, the subscript of line 345 raises
  \<open>KeyError\<close> before that.
\<close>

theorem unresolved_slot_aborts_run:
  "map sc_number (projr (extract_syscalls ex_ext (ex_arch ''sys_hidden'') image3 None None (Inr [5, 10])))
     = [4001, 4002, 9000] \<and>
   extract_syscalls ex_ext (ex_arch ''sys_hidden'') image3_stripped None None (Inr [5, 10])
     = Inl AssertionError \<and>
   extract_syscalls ex_ext (ex_arch ''sys_hidden'') image3_first_unresolved None None (Inr [5, 10])
     = Inl (KeyError_vaddr 0x1100)"
  by (simp add: ex_defs run_defs image3_stripped_def image3_first_unresolved_def
        sys_ni_syscall_far_def)

lemma finish_extraction_missing:
  assumes "(num, name, symbol_name, sig) \<in> set (arch_esoteric_syscalls arch version)"
    and "map_of (elf_symbols vmlinux) symbol_name = None"
  shows "\<exists>missing. map_of (elf_symbols vmlinux) missing = None \<and>
           finish_extraction ext arch vmlinux kdir rdir version vaddrs d ni = Inl (KeyError missing)"
proof -
  let ?symbols = "fst (filter_defined d ni vaddrs)"
  let ?prefixes = "common_syscall_symbol_prefixes ext (map (\<lambda>(idx, s). sym_name s) ?symbols) 20"
  from add_esoteric_missing [OF assms] obtain missing where
    "map_of (elf_symbols vmlinux) missing = None"
    "add_esoteric (elf_symbols vmlinux) (arch_esoteric_syscalls arch version)
       (fst (build_syscalls ext arch version ?prefixes ?symbols)) = Inl (KeyError missing)"
    by blast
  then show ?thesis
    by (auto simp: finish_extraction_def normalize_syscalls_def normalize_counters_def Let_def)
qed

text \<open>
  C5, as the code has it. When the symbol name of a hardcoded entry is not in the symbol
  table, the code from normalisation on raises \<open>KeyError\<close> for a missing name,
  whatever the decoded addresses; and the extraction as a whole returns no syscall (it
  raises, or returns the empty list of its fatal paths).
\<close>

theorem missing_esoteric_symbol_aborts:
  assumes "(num, name, symbol_name, sig) \<in>
             set (arch_esoteric_syscalls (adjust_abi ext arch0 vmlinux) version)"
    and "map_of (elf_symbols vmlinux) symbol_name = None"
  shows "(\<exists>missing. map_of (elf_symbols vmlinux) missing = None \<and>
            finish_extraction ext (adjust_abi ext arch0 vmlinux) vmlinux kdir rdir version vaddrs
              symbols_by_vaddr ni_syscalls = Inl (KeyError missing)) \<and>
         (\<forall>out. extract_syscalls ext arch0 vmlinux kdir rdir (Inr version) = Inr out \<longrightarrow> out = [])"
proof
  show "\<exists>missing. map_of (elf_symbols vmlinux) missing = None \<and>
            finish_extraction ext (adjust_abi ext arch0 vmlinux) vmlinux kdir rdir version vaddrs
              symbols_by_vaddr ni_syscalls = Inl (KeyError missing)"
    by (rule finish_extraction_missing [OF assms])
next
  have "\<And>vaddrs d ni out. finish_extraction ext (adjust_abi ext arch0 vmlinux) vmlinux kdir rdir
            version vaddrs d ni \<noteq> Inr out"
    using finish_extraction_missing [OF assms] by (metis Inl_Inr_False)
  then show "\<forall>out. extract_syscalls ext arch0 vmlinux kdir rdir (Inr version) = Inr out \<longrightarrow> out = []"
    by (auto simp: extract_syscalls_def Let_def split: option.splits sum.splits if_splits)
qed

text \<open>The theorem at \<open>image3\<close> with a hardcoded entry backed by \<open>sys_missing\<close>.\<close>

theorem missing_esoteric_symbol_aborts_witness:
  "(9000, ''hidden'', ''sys_missing'', None) \<in>
      set (arch_esoteric_syscalls (adjust_abi ex_ext (ex_arch ''sys_missing'') image3) [5, 10]) \<and>
   map_of (elf_symbols image3) ''sys_missing'' = None \<and>
   (\<exists>missing. map_of (elf_symbols image3) missing = None \<and>
      finish_extraction ex_ext (adjust_abi ex_ext (ex_arch ''sys_missing'') image3) image3 None None
        [5, 10] ex_vaddrs3 ex_map3 [sys_ni_syscall] = Inl (KeyError missing))"
proof -
  have h1: "(9000, ''hidden'', ''sys_missing'', None) \<in>
      set (arch_esoteric_syscalls (adjust_abi ex_ext (ex_arch ''sys_missing'') image3) [5, 10])"
    by (simp add: ex_ext_def ex_arch_def)
  have h2: "map_of (elf_symbols image3) ''sys_missing'' = None"
    by (simp add: image3_def ex_image_def)
  from missing_esoteric_symbol_aborts [OF h1 h2] h1 h2 show ?thesis by blast
qed

text \<open>
  C5 as stated fails: with the hardcoded entry backed by \<open>sys_missing\<close>, which the
  symbol table of \<open>image3\<close> does not have, the run raises \<open>KeyError\<close> and the
  syscalls of slots 1 and 2 are not produced.
\<close>

theorem missing_esoteric_symbol_counterexample:
  "map_of (elf_symbols image3) ''sys_missing'' = None \<and>
   arch_esoteric_syscalls (ex_arch ''sys_missing'') [5, 10] = [(9000, ''hidden'', ''sys_missing'', None)] \<and>
   extract_syscalls ex_ext (ex_arch ''sys_missing'') image3 None None (Inr [5, 10])
     = Inl (KeyError ''sys_missing'')"
  by (simp add: ex_defs run_defs)

lemma list_all2_right_member:
  "list_all2 P xs ys \<Longrightarrow> y \<in> set ys \<Longrightarrow> \<exists>x\<in>set xs. P x y"
  by (metis in_set_conv_nth list_all2_conv_all_nth)

lemma slot_before_same_identity:
  "same_identity a a' \<Longrightarrow> same_identity b b' \<Longrightarrow> slot_before a b \<Longrightarrow> slot_before a' b'"
  unfolding slot_before_def same_identity_def by metis

lemma same_identity_sorted:
  assumes "list_all2 same_identity xs ys" "sorted_wrt slot_before xs"
  shows "sorted_wrt slot_before ys"
proof -
  have "slot_before (ys ! i) (ys ! j)" if "i < j" "j < length ys" for i j
  proof -
    from assms(1) that have "same_identity (xs ! i) (ys ! i)" "same_identity (xs ! j) (ys ! j)"
      "j < length xs"
      by (auto simp: list_all2_conv_all_nth)
    moreover from assms(2) that \<open>j < length xs\<close> have "slot_before (xs ! i) (xs ! j)"
      by (simp add: sorted_wrt_iff_nth_less)
    ultimately show ?thesis by (blast intro: slot_before_same_identity)
  qed
  then show ?thesis by (simp add: sorted_wrt_iff_nth_less)
qed

lemma from_entry_enriched:
  assumes "list_all2 (from_entry symbols) hard entries" "list_all2 same_identity hard hard'"
  shows "list_all2 (from_entry symbols) hard' entries"
proof -
  have "from_entry symbols (hard' ! i) (entries ! i)" if "i < length hard'" for i
  proof -
    from assms that have "from_entry symbols (hard ! i) (entries ! i)"
      "same_identity (hard ! i) (hard' ! i)"
      by (auto simp: list_all2_conv_all_nth)
    then show ?thesis by (auto simp: from_entry_def same_identity_def)
  qed
  moreover have "length hard' = length entries"
    using assms by (metis list_all2_lengthD)
  ultimately show ?thesis by (simp add: list_all2_conv_all_nth)
qed

lemma from_entry_esoteric:
  "list_all2 (from_entry symbols) hard entries \<Longrightarrow> \<forall>sc\<in>set hard. sc_esoteric sc"
  by (induction hard entries rule: list_all2_induct) (auto simp: from_entry_def)

lemma from_entry_kept:
  "list_all2 (from_entry symbols) hard entries \<Longrightarrow>
   filter (\<lambda>sc. \<not> filter_drops ext arch vmlinux sc) hard = hard"
  using from_entry_esoteric [of symbols hard entries] by (simp add: filter_drops_def)

text \<open>
  The shape of what lines 359 to 504 return, under the contract of the enrichment: the
  syscalls of the defined slots that the architecture does not skip, enriched and then
  filtered, followed by the hardcoded entries, enriched and all kept.
\<close>

lemma finish_extraction_shape:
  assumes "enrichment_contract ext"
    and "finish_extraction ext arch vmlinux kdir rdir version vaddrs d ni = Inr out"
  shows "\<exists>table table' hard'.
           table = filter (\<lambda>sc. \<not> arch_skip_syscall arch sc) (slot_syscalls ext arch version vaddrs d ni) \<and>
           list_all2 same_identity table table' \<and>
           list_all2 (from_entry (elf_symbols vmlinux)) hard' (arch_esoteric_syscalls arch version) \<and>
           out = filter (\<lambda>sc. \<not> filter_drops ext arch vmlinux sc) table' @ hard'"
proof -
  from assms(2) obtain syscalls where
    n: "normalize_syscalls ext arch vmlinux version vaddrs d ni = Inr syscalls"
    and out: "out = implementation_filter ext arch vmlinux
                (extract_syscall_signatures ext
                   (extract_syscall_locations ext syscalls vmlinux kdir rdir arch) vmlinux
                   (kdir \<noteq> None))"
    by (auto simp: finish_extraction_def Let_def split: sum.splits)
  from n obtain ni_total n_skipped n_esoteric where
    "normalize_counters ext arch vmlinux version vaddrs d ni =
       Inr (syscalls, ni_total, n_skipped, n_esoteric)"
    by (auto simp: normalize_syscalls_def split: sum.splits if_splits)
  from normalize_counters_Inr(1) [OF this] obtain hard where
    s: "syscalls = filter (\<lambda>sc. \<not> arch_skip_syscall arch sc)
                     (slot_syscalls ext arch version vaddrs d ni) @ hard"
    and h: "list_all2 (from_entry (elf_symbols vmlinux)) hard (arch_esoteric_syscalls arch version)"
    by blast
  let ?table = "filter (\<lambda>sc. \<not> arch_skip_syscall arch sc) (slot_syscalls ext arch version vaddrs d ni)"
  let ?enriched = "extract_syscall_signatures ext
                   (extract_syscall_locations ext syscalls vmlinux kdir rdir arch) vmlinux
                   (kdir \<noteq> None)"
  have "list_all2 same_identity (?table @ hard) ?enriched"
    using enriched_same_identity [OF assms(1), of syscalls vmlinux kdir rdir arch "kdir \<noteq> None"] s
    by simp
  then obtain table' hard' where
    e: "?enriched = table' @ hard'" "list_all2 same_identity ?table table'"
       "list_all2 same_identity hard hard'"
    by (auto simp: list_all2_append1)
  have h': "list_all2 (from_entry (elf_symbols vmlinux)) hard' (arch_esoteric_syscalls arch version)"
    by (rule from_entry_enriched [OF h e(3)])
  have "out = filter (\<lambda>sc. \<not> filter_drops ext arch vmlinux sc) table' @ hard'"
    using out e(1) from_entry_kept [OF h', of ext arch vmlinux]
    by (simp add: implementation_filter_def)
  with e(2) h' show ?thesis by blast
qed

text \<open>
  C8. Under the contract of the enrichment, every syscall of the result that is not
  hardcoded carries a slot index \<open>idx\<close> of the decoded sequence, its number is the
  numbering base plus \<open>idx\<close>, and its symbol is the one the map gives for the address
  of slot \<open>idx\<close> of the decoded sequence: indices are positions in the decoded sequence,
  not positions among the retained syscalls. Every hardcoded syscall has the number and
  the name of an entry of the architecture profile, and no slot index.
\<close>

theorem syscall_numbers:
  assumes "enrichment_contract ext"
    and "finish_extraction ext arch vmlinux kdir rdir version vaddrs symbols_by_vaddr ni_syscalls = Inr out"
    and "sc \<in> set out"
  shows "(\<not> sc_esoteric sc \<longrightarrow>
            (\<exists>idx<length vaddrs. sc_index sc = Some idx \<and>
               sc_number sc = arch_syscall_num_base arch + int idx \<and>
               map_of symbols_by_vaddr (vaddrs ! idx) = Some (sc_symbol sc))) \<and>
         (sc_esoteric sc \<longrightarrow>
            (\<exists>num name symbol_name sig.
               (num, name, symbol_name, sig) \<in> set (arch_esoteric_syscalls arch version) \<and>
               sc_number sc = num \<and> sc_name sc = name \<and> sc_index sc = None))"
proof -
  from finish_extraction_shape [OF assms(1,2)] obtain table' hard' where
    t: "list_all2 same_identity
          (filter (\<lambda>sc. \<not> arch_skip_syscall arch sc)
             (slot_syscalls ext arch version vaddrs symbols_by_vaddr ni_syscalls)) table'"
    and h: "list_all2 (from_entry (elf_symbols vmlinux)) hard' (arch_esoteric_syscalls arch version)"
    and out: "out = filter (\<lambda>sc. \<not> filter_drops ext arch vmlinux sc) table' @ hard'"
    by blast
  from assms(3) out consider (table) "sc \<in> set table'" | (hard) "sc \<in> set hard'" by auto
  then show ?thesis
  proof cases
    case table
    from list_all2_right_member [OF t table] obtain sc0 where
      "sc0 \<in> set (slot_syscalls ext arch version vaddrs symbols_by_vaddr ni_syscalls)"
      "same_identity sc0 sc"
      by auto
    with slot_syscalls_member [of sc0 ext arch version vaddrs symbols_by_vaddr ni_syscalls]
    show ?thesis by (auto simp: same_identity_def)
  next
    case hard
    then obtain i where i: "i < length hard'" "sc = hard' ! i" by (auto simp: in_set_conv_nth)
    with h have "from_entry (elf_symbols vmlinux) sc (arch_esoteric_syscalls arch version ! i)"
      "i < length (arch_esoteric_syscalls arch version)"
      by (auto simp: list_all2_conv_all_nth)
    then show ?thesis
      by (cases "arch_esoteric_syscalls arch version ! i")
         (auto simp: from_entry_def, metis nth_mem)
  qed
qed

text \<open>
  C9. No hardcoded syscall is dropped by the filter, whatever its fields; and under the
  contract of the enrichment the result is a list of table-derived syscalls in strictly
  increasing slot order followed by one hardcoded syscall for each entry of the
  architecture profile, in the order of the profile.
\<close>

theorem output_order:
  assumes "enrichment_contract ext"
    and "finish_extraction ext arch vmlinux kdir rdir version vaddrs symbols_by_vaddr ni_syscalls = Inr out"
  shows "(\<forall>sc. sc_esoteric sc \<longrightarrow> \<not> filter_drops ext arch vmlinux sc) \<and>
         (\<exists>table_part hard_part.
            out = table_part @ hard_part \<and>
            (\<forall>sc\<in>set table_part. \<not> sc_esoteric sc \<and> sc_index sc \<noteq> None) \<and>
            sorted_wrt slot_before table_part \<and>
            list_all2 (from_entry (elf_symbols vmlinux)) hard_part
              (arch_esoteric_syscalls arch version))"
proof
  show "\<forall>sc. sc_esoteric sc \<longrightarrow> \<not> filter_drops ext arch vmlinux sc"
    by (simp add: filter_drops_def)
next
  let ?table = "filter (\<lambda>sc. \<not> arch_skip_syscall arch sc)
             (slot_syscalls ext arch version vaddrs symbols_by_vaddr ni_syscalls)"
  from finish_extraction_shape [OF assms] obtain table' hard' where
    t: "list_all2 same_identity ?table table'"
    and h: "list_all2 (from_entry (elf_symbols vmlinux)) hard' (arch_esoteric_syscalls arch version)"
    and out: "out = filter (\<lambda>sc. \<not> filter_drops ext arch vmlinux sc) table' @ hard'"
    by blast
  have "sorted_wrt slot_before ?table"
    by (rule sorted_wrt_filter) (rule slot_syscalls_sorted)
  from same_identity_sorted [OF t this]
  have so: "sorted_wrt slot_before (filter (\<lambda>sc. \<not> filter_drops ext arch vmlinux sc) table')"
    by (rule sorted_wrt_filter)
  have "\<not> sc_esoteric sc \<and> sc_index sc \<noteq> None" if "sc \<in> set table'" for sc
  proof -
    from list_all2_right_member [OF t that] obtain sc0 where
      "sc0 \<in> set (slot_syscalls ext arch version vaddrs symbols_by_vaddr ni_syscalls)"
      "same_identity sc0 sc"
      by auto
    with slot_syscalls_member [of sc0 ext arch version vaddrs symbols_by_vaddr ni_syscalls]
    show ?thesis by (auto simp: same_identity_def)
  qed
  then have "\<forall>sc\<in>set (filter (\<lambda>sc. \<not> filter_drops ext arch vmlinux sc) table').
               \<not> sc_esoteric sc \<and> sc_index sc \<noteq> None"
    by simp
  with so h out show "\<exists>table_part hard_part.
            out = table_part @ hard_part \<and>
            (\<forall>sc\<in>set table_part. \<not> sc_esoteric sc \<and> sc_index sc \<noteq> None) \<and>
            sorted_wrt slot_before table_part \<and>
            list_all2 (from_entry (elf_symbols vmlinux)) hard_part
              (arch_esoteric_syscalls arch version)"
    by blast
qed


text \<open>The example helpers keep the contract, and the run on \<open>image3\<close>.\<close>

lemma ex_ext_contract: "enrichment_contract ex_ext"
  by (simp add: enrichment_contract_def ex_ext_def list_all2_same same_identity_def)

lemma ex_finish3:
  "finish_extraction ex_ext (ex_arch ''sys_hidden'') image3 None None [5, 10] ex_vaddrs3 ex_map3
     [sys_ni_syscall] = Inr ex_out3"
  by (simp add: ex_defs run_defs ex_vaddrs3_def ex_map3_def ex_out3_def)

text \<open>
  The theorem of C8 at the second and the third syscall returned for \<open>image3\<close>: slot 2
  with number 4002, and the hardcoded entry with number 9000.
\<close>

theorem syscall_numbers_witness:
  "enrichment_contract ex_ext \<and>
   finish_extraction ex_ext (ex_arch ''sys_hidden'') image3 None None [5, 10] ex_vaddrs3 ex_map3
     [sys_ni_syscall] = Inr ex_out3 \<and>
   ex_out3 ! 1 \<in> set ex_out3 \<and> \<not> sc_esoteric (ex_out3 ! 1) \<and>
   (\<exists>idx<length ex_vaddrs3. sc_index (ex_out3 ! 1) = Some idx \<and>
      sc_number (ex_out3 ! 1) = arch_syscall_num_base (ex_arch ''sys_hidden'') + int idx \<and>
      map_of ex_map3 (ex_vaddrs3 ! idx) = Some (sc_symbol (ex_out3 ! 1))) \<and>
   ex_out3 ! 2 \<in> set ex_out3 \<and> sc_esoteric (ex_out3 ! 2) \<and>
   (\<exists>num name symbol_name sig.
      (num, name, symbol_name, sig) \<in> set (arch_esoteric_syscalls (ex_arch ''sys_hidden'') [5, 10]) \<and>
      sc_number (ex_out3 ! 2) = num \<and> sc_name (ex_out3 ! 2) = name \<and> sc_index (ex_out3 ! 2) = None)"
proof -
  have m1: "ex_out3 ! 1 \<in> set ex_out3" and e1: "\<not> sc_esoteric (ex_out3 ! 1)"
    and m2: "ex_out3 ! 2 \<in> set ex_out3" and e2: "sc_esoteric (ex_out3 ! 2)"
    by (simp_all add: ex_out3_def new_Syscall_def)
  from syscall_numbers [OF ex_ext_contract ex_finish3 m1] e1
  have c1: "\<exists>idx<length ex_vaddrs3. sc_index (ex_out3 ! 1) = Some idx \<and>
      sc_number (ex_out3 ! 1) = arch_syscall_num_base (ex_arch ''sys_hidden'') + int idx \<and>
      map_of ex_map3 (ex_vaddrs3 ! idx) = Some (sc_symbol (ex_out3 ! 1))"
    by blast
  from syscall_numbers [OF ex_ext_contract ex_finish3 m2] e2
  have c2: "\<exists>num name symbol_name sig.
      (num, name, symbol_name, sig) \<in> set (arch_esoteric_syscalls (ex_arch ''sys_hidden'') [5, 10]) \<and>
      sc_number (ex_out3 ! 2) = num \<and> sc_name (ex_out3 ! 2) = name \<and> sc_index (ex_out3 ! 2) = None"
    by blast
  from ex_ext_contract ex_finish3 m1 e1 c1 m2 e2 c2 show ?thesis by blast
qed

text \<open>The theorem of C9 at the run on \<open>image3\<close>.\<close>

theorem output_order_witness:
  "enrichment_contract ex_ext \<and>
   finish_extraction ex_ext (ex_arch ''sys_hidden'') image3 None None [5, 10] ex_vaddrs3 ex_map3
     [sys_ni_syscall] = Inr ex_out3 \<and>
   (\<exists>table_part hard_part.
      ex_out3 = table_part @ hard_part \<and>
      (\<forall>sc\<in>set table_part. \<not> sc_esoteric sc \<and> sc_index sc \<noteq> None) \<and>
      sorted_wrt slot_before table_part \<and>
      list_all2 (from_entry (elf_symbols image3)) hard_part
        (arch_esoteric_syscalls (ex_arch ''sys_hidden'') [5, 10]))"
  using output_order [OF ex_ext_contract ex_finish3] ex_ext_contract ex_finish3 by blast

section \<open>Verification: Version Detector\<close>

lemma version_from_vmlinux_Inl:
  "version_from_vmlinux ext vmlinux = Inl e \<Longrightarrow> e = UnicodeDecodeError"
  by (auto simp: version_from_vmlinux_def version_from_banner_def
           split: option.splits if_splits)

text \<open>
  C4, as the code has it. With an empty cache the property consults exactly one source:
  \<^item> when an image is given, the image alone, whether or not a source directory is
    given: the world is left as it is (the build tool is not run); an exception of the
    lookup, which is the \<open>UnicodeDecodeError\<close> of a banner that cannot be decoded and
    nothing else, is passed on; otherwise the property raises \<open>KernelVersionError\<close> exactly when the lookup gives no version,
    that is when the symbol \<open>linux_banner\<close> is absent or the decoded banner lacks the
    prefix \<open>Linux version\<close> or a version after it;
  \<^item> when no image is given and a source directory is, the build tool alone: an
    exception of the command is passed on; when the command returns, the property raises
    \<open>KernelVersionError\<close> exactly when the output has no version at its start;
  \<^item> when neither is given, it raises \<open>KernelVersionError\<close>.
  With a filled cache it returns the cached version.
\<close>

theorem version_detection_sources:
  "(k_version k = None \<and> k_vmlinux k = Some vmlinux \<longrightarrow>
      kernel_version ext W (k, w) =
        (case version_from_vmlinux ext vmlinux of
           Inl e \<Rightarrow> (Inl e, k, w)
         | Inr None \<Rightarrow>
             (Inl KernelVersionError,
              k\<lparr>k_version := None, k_version_source := Some ''vmlinux''\<rparr>, w)
         | Inr (Some v) \<Rightarrow>
             (Inr v, k\<lparr>k_version := Some v, k_version_source := Some ''vmlinux''\<rparr>, w)) \<and>
      (fst (kernel_version ext W (k, w)) = Inl KernelVersionError \<longleftrightarrow>
         version_from_vmlinux ext vmlinux = Inr None)) \<and>
   (\<forall>e. version_from_vmlinux ext vmlinux = Inl e \<longrightarrow> e = UnicodeDecodeError) \<and>
   (version_from_vmlinux ext vmlinux = Inl UnicodeDecodeError \<longleftrightarrow>
      (\<exists>banner.
         map_of (elf_symbols vmlinux) ''linux_banner'' = Some banner \<and>
         (case (if sym_size banner \<noteq> 0 then elf_read_symbol vmlinux banner
                else elf_vaddr_read_string vmlinux (sym_vaddr banner)) of
            Bytes bs \<Rightarrow> utf8_decode ext bs
          | Str s \<Rightarrow> Some s) = None)) \<and>
   (version_from_vmlinux ext vmlinux = Inr None \<longleftrightarrow>
      map_of (elf_symbols vmlinux) ''linux_banner'' = None \<or>
      (\<exists>banner text.
         map_of (elf_symbols vmlinux) ''linux_banner'' = Some banner \<and>
         (case (if sym_size banner \<noteq> 0 then elf_read_symbol vmlinux banner
                else elf_vaddr_read_string vmlinux (sym_vaddr banner)) of
            Bytes bs \<Rightarrow> utf8_decode ext bs
          | Str s \<Rightarrow> Some s) = Some text \<and>
         (take 14 text = ascii ''Linux version '' \<longrightarrow>
            version_from_str ext (drop 14 text) = None))) \<and>
   (k_version k = None \<and> k_vmlinux k = None \<and> k_kdir k \<noteq> None \<longrightarrow>
      kernel_version ext W (k, w) =
        (case w_ensure_command W (Shell ''make kernelversion'') (k_kdir k) None w of
           (Inl e, w') \<Rightarrow> (Inl e, k, w')
         | (Inr output, w') \<Rightarrow>
             (case version_from_str ext output of
                None \<Rightarrow>
                  (Inl KernelVersionError,
                   k\<lparr>k_version := None, k_version_source := Some ''make''\<rparr>, w')
              | Some v \<Rightarrow>
                  (Inr v, k\<lparr>k_version := Some v, k_version_source := Some ''make''\<rparr>, w')))) \<and>
   (k_version k = None \<and> k_vmlinux k = None \<and> k_kdir k = None \<longrightarrow>
      kernel_version ext W (k, w) = (Inl KernelVersionError, k, w)) \<and>
   (\<forall>v. k_version k = Some v \<longrightarrow> kernel_version ext W (k, w) = (Inr v, k, w))"
proof (intro conjI)
  show "k_version k = None \<and> k_vmlinux k = Some vmlinux \<longrightarrow>
      kernel_version ext W (k, w) =
        (case version_from_vmlinux ext vmlinux of
           Inl e \<Rightarrow> (Inl e, k, w)
         | Inr None \<Rightarrow>
             (Inl KernelVersionError,
              k\<lparr>k_version := None, k_version_source := Some ''vmlinux''\<rparr>, w)
         | Inr (Some v) \<Rightarrow>
             (Inr v, k\<lparr>k_version := Some v, k_version_source := Some ''vmlinux''\<rparr>, w)) \<and>
      (fst (kernel_version ext W (k, w)) = Inl KernelVersionError \<longleftrightarrow>
         version_from_vmlinux ext vmlinux = Inr None)"
    using version_from_vmlinux_Inl [of ext vmlinux]
    by (auto simp: kernel_version_def detect_version_def and_then_def
             split: sum.splits option.splits)
  show "\<forall>e. version_from_vmlinux ext vmlinux = Inl e \<longrightarrow> e = UnicodeDecodeError"
    using version_from_vmlinux_Inl by blast
  show "version_from_vmlinux ext vmlinux = Inl UnicodeDecodeError \<longleftrightarrow>
      (\<exists>banner.
         map_of (elf_symbols vmlinux) ''linux_banner'' = Some banner \<and>
         (case (if sym_size banner \<noteq> 0 then elf_read_symbol vmlinux banner
                else elf_vaddr_read_string vmlinux (sym_vaddr banner)) of
            Bytes bs \<Rightarrow> utf8_decode ext bs
          | Str s \<Rightarrow> Some s) = None)"
    by (cases "map_of (elf_symbols vmlinux) ''linux_banner''")
       (auto simp: version_from_vmlinux_def version_from_banner_def split: option.splits)
  show "version_from_vmlinux ext vmlinux = Inr None \<longleftrightarrow>
      map_of (elf_symbols vmlinux) ''linux_banner'' = None \<or>
      (\<exists>banner text.
         map_of (elf_symbols vmlinux) ''linux_banner'' = Some banner \<and>
         (case (if sym_size banner \<noteq> 0 then elf_read_symbol vmlinux banner
                else elf_vaddr_read_string vmlinux (sym_vaddr banner)) of
            Bytes bs \<Rightarrow> utf8_decode ext bs
          | Str s \<Rightarrow> Some s) = Some text \<and>
         (take 14 text = ascii ''Linux version '' \<longrightarrow>
            version_from_str ext (drop 14 text) = None))"
    by (cases "map_of (elf_symbols vmlinux) ''linux_banner''")
       (auto simp: version_from_vmlinux_def version_from_banner_def split: option.splits)
  show "k_version k = None \<and> k_vmlinux k = None \<and> k_kdir k \<noteq> None \<longrightarrow>
      kernel_version ext W (k, w) =
        (case w_ensure_command W (Shell ''make kernelversion'') (k_kdir k) None w of
           (Inl e, w') \<Rightarrow> (Inl e, k, w')
         | (Inr output, w') \<Rightarrow>
             (case version_from_str ext output of
                None \<Rightarrow>
                  (Inl KernelVersionError,
                   k\<lparr>k_version := None, k_version_source := Some ''make''\<rparr>, w')
              | Some v \<Rightarrow>
                  (Inr v, k\<lparr>k_version := Some v, k_version_source := Some ''make''\<rparr>, w')))"
    by (auto simp: kernel_version_def detect_version_def version_from_make_def and_then_def
             split: sum.splits option.splits prod.splits)
  show "k_version k = None \<and> k_vmlinux k = None \<and> k_kdir k = None \<longrightarrow>
      kernel_version ext W (k, w) = (Inl KernelVersionError, k, w)"
    by (auto simp: kernel_version_def detect_version_def and_then_def)
  show "\<forall>v. k_version k = Some v \<longrightarrow> kernel_version ext W (k, w) = (Inr v, k, w)"
    by (auto simp: kernel_version_def detect_version_def and_then_def)
qed

lemma ex_version_6_1_55:
  "version_from_str ex_ext (drop 14 (ascii ''Linux version 6.1.55 (gcc 12.2.0) #1 SMP''))
     = Some [6, 1, 55]"
  by (simp add: version_from_str_def is_digit_def int_of_digits_def ex_ext_def ascii_def Let_def)

lemma ex_version_5_10_0: "version_from_str ex_ext (ascii ''5.10.0'') = Some [5, 10, 0]"
  by (simp add: version_from_str_def is_digit_def int_of_digits_def ex_ext_def ascii_def Let_def)

text \<open>
  The theorem at a kernel with the image whose banner is that of Linux 6.1.55 (the world
  stays at 0 commands), and at a kernel with no image (one command is run, and its output
  \<open>5.10.0\<close> is the version).
\<close>

theorem version_detection_sources_witness:
  "k_version (ex_kernel (Some image_banner) None None) = None \<and>
   k_vmlinux (ex_kernel (Some image_banner) None None) = Some image_banner \<and>
   kernel_version ex_ext ex_world (ex_kernel (Some image_banner) None None, 0) =
     (Inr [6, 1, 55],
      (ex_kernel (Some image_banner) None None)
        \<lparr>k_version := Some [6, 1, 55], k_version_source := Some ''vmlinux''\<rparr>, 0) \<and>
   k_vmlinux (ex_kernel None None None) = None \<and>
   kernel_version ex_ext ex_world (ex_kernel None None None, 0) =
     (Inr [5, 10, 0],
      (ex_kernel None None None)
        \<lparr>k_version := Some [5, 10, 0], k_version_source := Some ''make''\<rparr>, 1)"
proof -
  have v1: "version_from_vmlinux ex_ext image_banner = Inr (Some [6, 1, 55])"
    using ex_version_6_1_55
    by (simp add: version_from_vmlinux_def version_from_banner_def
          image_banner_def ex_image_def linux_banner_def ascii_def)
  have k1: "k_version (ex_kernel (Some image_banner) None None) = None"
       "k_vmlinux (ex_kernel (Some image_banner) None None) = Some image_banner"
    by (simp_all add: ex_kernel_def)
  have k2: "k_version (ex_kernel None None None) = None"
       "k_vmlinux (ex_kernel None None None) = None"
       "k_kdir (ex_kernel None None None) = Some ''/src''"
    by (simp_all add: ex_kernel_def)
  have w: "w_ensure_command ex_world (Shell ''make kernelversion'') (Some ''/src'') None 0
             = (Inr (ascii ''5.10.0''), 1)"
    by (simp add: ex_world_def)
  from version_detection_sources [of "ex_kernel (Some image_banner) None None" image_banner
         ex_ext ex_world 0] k1 v1
  have r1: "kernel_version ex_ext ex_world (ex_kernel (Some image_banner) None None, 0) =
     (Inr [6, 1, 55],
      (ex_kernel (Some image_banner) None None)
        \<lparr>k_version := Some [6, 1, 55], k_version_source := Some ''vmlinux''\<rparr>, 0)"
    by simp
  from version_detection_sources [of "ex_kernel None None None" image_banner ex_ext ex_world 0]
       k2 w ex_version_5_10_0
  have r2: "kernel_version ex_ext ex_world (ex_kernel None None None, 0) =
     (Inr [5, 10, 0],
      (ex_kernel None None None)
        \<lparr>k_version := Some [5, 10, 0], k_version_source := Some ''make''\<rparr>, 1)"
    by simp
  from k1 k2 r1 r2 show ?thesis by simp
qed

text \<open>
  C4 as stated fails: the kernel has an image without the symbol \<open>linux_banner\<close> and a
  source directory in which \<^verbatim>\<open>make kernelversion\<close> would give 5.10.0; the access to the
  version raises \<open>KernelVersionError\<close> and no command has been run.
\<close>

theorem no_fallback_with_image_counterexample:
  "k_vmlinux (ex_kernel (Some image3) None None) = Some image3 \<and>
   k_kdir (ex_kernel (Some image3) None None) = Some ''/src'' \<and>
   map_of (elf_symbols image3) ''linux_banner'' = None \<and>
   fst (version_from_make ex_ext ex_world (ex_kernel (Some image3) None None, 0))
     = Inr (Some [5, 10, 0]) \<and>
   fst (kernel_version ex_ext ex_world (ex_kernel (Some image3) None None, 0)) = Inl KernelVersionError \<and>
   snd (snd (kernel_version ex_ext ex_world (ex_kernel (Some image3) None None, 0))) = 0"
  using ex_version_5_10_0
  by (simp add: ex_kernel_def image3_def ex_image_def ex_world_def kernel_version_def
        detect_version_def version_from_make_def version_from_vmlinux_def and_then_def)

section \<open>Verification: Kernel Builder and the caches\<close>

lemma preserves_returns: "preserves g (returns a)"
  by (simp add: preserves_def returns_def)

lemma preserves_and_then:
  assumes "preserves g m" "\<And>a. preserves g (f a)"
  shows "preserves g (and_then m f)"
proof -
  have "g (fst (snd (and_then m f (k, w)))) = g k" for k w
  proof (cases "m (k, w)")
    case (fields r k' w')
    from assms(1) have "g (fst (snd (m (k, w)))) = g k" by (simp add: preserves_def)
    with fields have gk: "g k' = g k" by simp
    show ?thesis
    proof (cases r)
      case (Inl e)
      with fields gk show ?thesis by (simp add: and_then_def)
    next
      case (Inr a)
      with fields gk assms(2) [of a] show ?thesis by (simp add: and_then_def preserves_def)
    qed
  qed
  then show ?thesis by (simp add: preserves_def)
qed

lemma preserves_make: "preserves g (make W target stdin ensure)"
  by (auto simp: preserves_def make_def Let_def split: option.splits prod.splits sum.splits)

lemma preserves_reset_version: "preserves k_syscalls reset_version"
  by (simp add: preserves_def reset_version_def)

lemma preserves_kernel_version: "preserves k_syscalls (kernel_version ext W)"
  by (auto simp: preserves_def kernel_version_def detect_version_def version_from_make_def
        and_then_def split: option.splits prod.splits sum.splits)

lemma preserves_sync_config: "preserves k_syscalls (sync_config ext W)"
  unfolding sync_config_def
  by (intro preserves_and_then preserves_kernel_version) (simp add: preserves_and_then preserves_make preserves_returns)

lemma preserves_apply_configs: "preserves k_syscalls (apply_configs ext W edit config_file configs)"
  unfolding apply_configs_def
proof (intro preserves_and_then preserves_kernel_version preserves_sync_config)
  fix a
  show "preserves k_syscalls (\<lambda>s. case s of (k, w) \<Rightarrow>
          (case edit (k_kdir k) config_file (configs k a) w of (r, w') \<Rightarrow> (r, k, w')))"
    by (auto simp: preserves_def split: prod.splits)
qed

lemma preserves_clean: "preserves k_syscalls (clean W)"
  unfolding clean_def
  by (intro preserves_and_then preserves_reset_version preserves_make preserves_returns)

lemma preserves_configure: "preserves k_syscalls (configure ext W)"
  unfolding configure_def
proof (intro preserves_and_then preserves_reset_version preserves_apply_configs)
  show "preserves k_syscalls (config_file_of ext)"
    by (auto simp: preserves_def config_file_of_def split: option.splits)
  show "preserves k_syscalls (\<lambda>s. case s of (k, w) \<Rightarrow>
          make W (arch_config_target (k_arch k)) None True (k, w))"
    using preserves_make [of k_syscalls W _ None True] by (simp add: preserves_def)
qed

lemma preserves_try_set:
  "preserves k_syscalls (try_set_optimization_level ext W lvl)"
  "preserves k_version (try_set_optimization_level ext W lvl)"
  by (auto simp: preserves_def try_set_optimization_level_def
           split: option.splits prod.splits sum.splits)

lemma preserves_restore: "preserves g (restore_makefile ext W)"
  by (auto simp: preserves_def restore_makefile_def
           split: option.splits prod.splits sum.splits if_splits)

lemma preserves_atexit:
  "preserves g (\<lambda>s. case s of (k, w) \<Rightarrow> (Inr (), k, w_atexit_register W w))"
  by (simp add: preserves_def)

lemma preserves_build_body:
  assumes "\<And>lvl. preserves g (try_set_optimization_level ext W lvl)"
  shows "preserves g
     (let normal_build = and_then (make W ''vmlinux'' None True) (\<lambda>status. returns ()) in
          if try_disable_opt then
            and_then (try_set_optimization_level ext W 0)
              (\<lambda>patched.
                 if patched then
                   and_then (\<lambda>s. case s of (k, w) \<Rightarrow> (Inr (), k, w_atexit_register W w))
                     (\<lambda>u. and_then (make W ''vmlinux'' None False)
                        (\<lambda>res. and_then (restore_makefile ext W)
                           (\<lambda>u. if res = 0 then returns ()
                                 else and_then (try_set_optimization_level ext W 1)
                                   (\<lambda>patched. and_then (make W ''vmlinux'' None False)
                                      (\<lambda>res. and_then (restore_makefile ext W)
                                         (\<lambda>u. if res = 0 then returns ()
                                               else normal_build))))))
                 else normal_build)
          else normal_build)"
  by (simp add: Let_def preserves_and_then preserves_make preserves_returns preserves_restore
        preserves_atexit assms)

lemma preserves_build: "preserves k_syscalls (build ext W try_disable_opt)"
  unfolding build_def
  by (intro preserves_and_then preserves_reset_version preserves_build_body preserves_try_set)


lemma reset_then_version_None:
  assumes "\<And>a. preserves k_version (f a)"
  shows "k_version (fst (snd (and_then reset_version f (k, w)))) = None"
  using assms [of "()"] by (simp add: and_then_def reset_version_def preserves_def)

lemma reset_forgets_cache:
  "and_then reset_version f (k\<lparr>k_version := v\<rparr>, w) = and_then reset_version f (k\<lparr>k_version := None\<rparr>, w)"
  by (simp add: and_then_def reset_version_def)

lemma and_then_Inr: "m s = (Inr a, s') \<Longrightarrow> and_then m f s = f a s'"
  by (simp add: and_then_def)

lemma configure_forgets_cache:
  assumes "k_outdir k \<noteq> None \<or> k_kdir k \<noteq> None"
  shows "configure ext W (k\<lparr>k_version := v\<rparr>, w) = configure ext W (k\<lparr>k_version := None\<rparr>, w)"
proof -
  from assms have "(case k_outdir k of Some outdir \<Rightarrow> Some outdir | None \<Rightarrow> k_kdir k) \<noteq> None"
    by (cases "k_outdir k") auto
  then obtain dir where
    dir: "(case k_outdir k of Some outdir \<Rightarrow> Some outdir | None \<Rightarrow> k_kdir k) = Some dir"
    by blast
  have first: "config_file_of ext (k\<lparr>k_version := x\<rparr>, w) =
                 (Inr (path_join ext dir ''.config''), k\<lparr>k_version := x\<rparr>, w)" for x
    using dir by (cases "k_outdir k") (simp_all add: config_file_of_def)
  show ?thesis
    unfolding configure_def
      and_then_Inr [where m = "config_file_of ext", OF first [of v]]
      and_then_Inr [where m = "config_file_of ext", OF first [of None]]
    by (rule reset_forgets_cache)
qed

lemma kernel_syscalls_cached:
  "k_syscalls (fst s) = Some l \<Longrightarrow> kernel_syscalls ext W s = (Inr l, s)"
  by (cases s) (simp add: kernel_syscalls_def)

text \<open>
  With an empty cache an access to the version is a detection; and \<open>clean\<close> and
  \<open>build\<close> change neither the image nor the source directory of the object.
\<close>

lemma kernel_version_fresh:
  "k_version k = None \<Longrightarrow> fst (kernel_version ext W (k, w)) = fresh_version ext W k w"
  by (auto simp: kernel_version_def detect_version_def version_from_make_def and_then_def
        fresh_version_def split: sum.splits option.splits prod.splits)

lemma fresh_version_same_sources:
  "k_vmlinux k' = k_vmlinux k \<Longrightarrow> k_kdir k' = k_kdir k \<Longrightarrow>
   fresh_version ext W k' w = fresh_version ext W k w"
  by (cases "k_vmlinux k") (simp_all add: fresh_version_def)

lemma preserves_reset_version_field:
  "(\<And>k. g (k\<lparr>k_version := None\<rparr>) = g k) \<Longrightarrow> preserves g reset_version"
  by (simp add: preserves_def reset_version_def)

lemma preserves_try_set_field:
  "(\<And>k d. g (k\<lparr>k_backup_makefile := d\<rparr>) = g k) \<Longrightarrow>
   preserves g (try_set_optimization_level ext W lvl)"
  by (auto simp: preserves_def try_set_optimization_level_def
           split: option.splits prod.splits sum.splits)

lemma preserves_clean_field:
  assumes "\<And>k. g (k\<lparr>k_version := None\<rparr>) = g k"
  shows "preserves g (clean W)"
  unfolding clean_def
  by (intro preserves_and_then preserves_reset_version_field assms preserves_make preserves_returns)

lemma preserves_build_field:
  assumes "\<And>k. g (k\<lparr>k_version := None\<rparr>) = g k"
    and "\<And>k d. g (k\<lparr>k_backup_makefile := d\<rparr>) = g k"
  shows "preserves g (build ext W try_disable_opt)"
  unfolding build_def
  by (intro preserves_and_then preserves_reset_version_field assms(1) preserves_build_body
        preserves_try_set_field assms(2))

lemma redetect_after:
  assumes "preserves k_vmlinux m" "preserves k_kdir m" "k_version (fst (snd (m (k, w)))) = None"
  shows "fst (kernel_version ext W (snd (m (k, w)))) = fresh_version ext W k (snd (snd (m (k, w))))"
proof -
  let ?k = "fst (snd (m (k, w)))" and ?w = "snd (snd (m (k, w)))"
  from assms(1,2) have same: "k_vmlinux ?k = k_vmlinux k" "k_kdir ?k = k_kdir k"
    by (simp_all add: preserves_def)
  have "fst (kernel_version ext W (?k, ?w)) = fresh_version ext W ?k ?w"
    using assms(3) by (rule kernel_version_fresh)
  also have "\<dots> = fresh_version ext W k ?w"
    using same by (rule fresh_version_same_sources)
  finally show ?thesis by simp
qed

lemma configure_without_directory:
  "k_outdir k = None \<Longrightarrow> k_kdir k = None \<Longrightarrow> configure ext W (k, w) = (Inl TypeError, k, w)"
  by (simp add: configure_def and_then_def config_file_of_def)

text \<open>
  C10, as the code has it. For \<open>clean\<close>, \<open>build\<close> and \<open>configure\<close>, whether they
  return or raise:
  \<^item> the cache of the syscalls after the operation is the one before it, and when it
    holds a list the property \<open>syscalls\<close> returns that list and changes neither the
    object nor the world (no extraction is run);
  \<^item> \<open>clean\<close> and \<open>build\<close> reset the cache of the version: after them the cache is
    empty, the next access to the version gives what a detection gives for the object in
    the world they leave, and what they do and leave behind is the same whatever version
    was cached before;
  \<^item> \<open>configure\<close> resets the cache of the version after it has computed the path of
    the configuration file: when the object has an output or a source directory, what it
    does and leaves behind is the same whatever version was cached before; when the object
    has neither, it raises \<open>TypeError\<close> and leaves the object, with the version that was
    cached, and the world as they were.
\<close>

theorem builder_keeps_syscalls:
  "(k_syscalls (fst (snd (clean W (k, w)))) = k_syscalls k \<and>
    k_version (fst (snd (clean W (k, w)))) = None \<and>
    fst (kernel_version ext W (snd (clean W (k, w)))) =
      fresh_version ext W k (snd (snd (clean W (k, w)))) \<and>
    clean W (k\<lparr>k_version := v\<rparr>, w) = clean W (k\<lparr>k_version := None\<rparr>, w) \<and>
    (\<forall>l. k_syscalls k = Some l \<longrightarrow>
       kernel_syscalls ext W (snd (clean W (k, w))) = (Inr l, snd (clean W (k, w))))) \<and>
   (k_syscalls (fst (snd (build ext W try_disable_opt (k, w)))) = k_syscalls k \<and>
    k_version (fst (snd (build ext W try_disable_opt (k, w)))) = None \<and>
    fst (kernel_version ext W (snd (build ext W try_disable_opt (k, w)))) =
      fresh_version ext W k (snd (snd (build ext W try_disable_opt (k, w)))) \<and>
    build ext W try_disable_opt (k\<lparr>k_version := v\<rparr>, w) =
      build ext W try_disable_opt (k\<lparr>k_version := None\<rparr>, w) \<and>
    (\<forall>l. k_syscalls k = Some l \<longrightarrow>
       kernel_syscalls ext W (snd (build ext W try_disable_opt (k, w))) =
         (Inr l, snd (build ext W try_disable_opt (k, w))))) \<and>
   (k_syscalls (fst (snd (configure ext W (k, w)))) = k_syscalls k \<and>
    (k_outdir k \<noteq> None \<or> k_kdir k \<noteq> None \<longrightarrow>
       configure ext W (k\<lparr>k_version := v\<rparr>, w) = configure ext W (k\<lparr>k_version := None\<rparr>, w)) \<and>
    (k_outdir k = None \<and> k_kdir k = None \<longrightarrow>
       configure ext W (k, w) = (Inl TypeError, k, w)) \<and>
    (\<forall>l. k_syscalls k = Some l \<longrightarrow>
       kernel_syscalls ext W (snd (configure ext W (k, w))) =
         (Inr l, snd (configure ext W (k, w)))))"
proof -
  have c1: "k_syscalls (fst (snd (clean W (k, w)))) = k_syscalls k"
    using preserves_clean [of W] by (simp add: preserves_def)
  have c2: "k_version (fst (snd (clean W (k, w)))) = None"
    unfolding clean_def
    by (rule reset_then_version_None)
       (intro preserves_and_then preserves_make preserves_returns)
  have c4: "fst (kernel_version ext W (snd (clean W (k, w)))) =
      fresh_version ext W k (snd (snd (clean W (k, w))))"
  proof -
    have "preserves k_vmlinux (clean W)" by (rule preserves_clean_field) simp
    moreover have "preserves k_kdir (clean W)" by (rule preserves_clean_field) simp
    ultimately show ?thesis
      using c2 by (rule redetect_after [where m = "clean W"])
  qed
  have c3: "clean W (k\<lparr>k_version := v\<rparr>, w) = clean W (k\<lparr>k_version := None\<rparr>, w)"
    unfolding clean_def by (rule reset_forgets_cache)
  have b1: "k_syscalls (fst (snd (build ext W try_disable_opt (k, w)))) = k_syscalls k"
    using preserves_build [of ext W try_disable_opt] by (simp add: preserves_def)
  have b2: "k_version (fst (snd (build ext W try_disable_opt (k, w)))) = None"
    unfolding build_def
    by (rule reset_then_version_None) (intro preserves_build_body preserves_try_set)
  have b4: "fst (kernel_version ext W (snd (build ext W try_disable_opt (k, w)))) =
      fresh_version ext W k (snd (snd (build ext W try_disable_opt (k, w))))"
  proof -
    have "preserves k_vmlinux (build ext W try_disable_opt)"
      by (rule preserves_build_field) simp_all
    moreover have "preserves k_kdir (build ext W try_disable_opt)"
      by (rule preserves_build_field) simp_all
    ultimately show ?thesis
      using b2 by (rule redetect_after [where m = "build ext W try_disable_opt"])
  qed
  have b3: "build ext W try_disable_opt (k\<lparr>k_version := v\<rparr>, w) =
      build ext W try_disable_opt (k\<lparr>k_version := None\<rparr>, w)"
    unfolding build_def by (rule reset_forgets_cache)
  have f1: "k_syscalls (fst (snd (configure ext W (k, w)))) = k_syscalls k"
    using preserves_configure [of ext W] by (simp add: preserves_def)
  show ?thesis
    using c1 c2 c3 c4 b1 b2 b3 b4 f1 configure_forgets_cache [where k = k and ext = ext and W = W and v = v and w = w]
      configure_without_directory [of k ext W w]
      kernel_syscalls_cached [of "snd (clean W (k, w))" _ ext W]
      kernel_syscalls_cached [of "snd (build ext W try_disable_opt (k, w))" _ ext W]
      kernel_syscalls_cached [of "snd (configure ext W (k, w))" _ ext W]
    by simp
qed


text \<open>
  The theorem at a kernel whose cache holds the three syscalls of \<open>image3\<close>: after each
  of the three operations the property returns them; \<open>clean\<close> has run one command.
\<close>

theorem builder_keeps_syscalls_witness:
  "k_syscalls (ex_kernel (Some image_banner) (Some [5, 10]) (Some ex_out3)) = Some ex_out3 \<and>
   k_kdir (ex_kernel (Some image_banner) (Some [5, 10]) (Some ex_out3)) = Some ''/src'' \<and>
   kernel_syscalls ex_ext ex_world
       (snd (clean ex_world (ex_kernel (Some image_banner) (Some [5, 10]) (Some ex_out3), 0))) =
     (Inr ex_out3, snd (clean ex_world (ex_kernel (Some image_banner) (Some [5, 10]) (Some ex_out3), 0))) \<and>
   kernel_syscalls ex_ext ex_world
       (snd (build ex_ext ex_world True (ex_kernel (Some image_banner) (Some [5, 10]) (Some ex_out3), 0))) =
     (Inr ex_out3,
      snd (build ex_ext ex_world True (ex_kernel (Some image_banner) (Some [5, 10]) (Some ex_out3), 0))) \<and>
   kernel_syscalls ex_ext ex_world
       (snd (configure ex_ext ex_world (ex_kernel (Some image_banner) (Some [5, 10]) (Some ex_out3), 0))) =
     (Inr ex_out3,
      snd (configure ex_ext ex_world (ex_kernel (Some image_banner) (Some [5, 10]) (Some ex_out3), 0))) \<and>
   configure ex_ext ex_world
       ((ex_kernel (Some image_banner) (Some [5, 10]) (Some ex_out3))\<lparr>k_version := Some [4, 4]\<rparr>, 0) =
     configure ex_ext ex_world
       ((ex_kernel (Some image_banner) (Some [5, 10]) (Some ex_out3))\<lparr>k_version := None\<rparr>, 0) \<and>
   snd (snd (clean ex_world (ex_kernel (Some image_banner) (Some [5, 10]) (Some ex_out3), 0))) = 1"
proof -
  let ?k = "ex_kernel (Some image_banner) (Some [5, 10]) (Some ex_out3)"
  have h: "k_syscalls ?k = Some ex_out3" and d: "k_kdir ?k = Some ''/src''"
    by (simp_all add: ex_kernel_def)
  have ran: "snd (snd (clean ex_world (?k, 0))) = 1"
    by (simp add: clean_def and_then_def reset_version_def make_def returns_def Let_def
          ex_kernel_def ex_world_def)
  from builder_keeps_syscalls [where W = ex_world and k = ?k and w = 0 and v = "Some [4, 4]"
         and ext = ex_ext and try_disable_opt = True] h d ran
  show ?thesis by simp
qed

text \<open>
  C10 as stated fails for \<open>configure\<close>: on the kernel object made from an image alone,
  whose cache holds the version 5.10, \<open>configure\<close> raises \<open>TypeError\<close> and the cache
  still holds 5.10 afterwards; the next access to the version returns 5.10 from the cache
  and detects nothing, though the banner of the image says 6.1.55.
\<close>

theorem configure_keeps_stale_version_counterexample:
  "k_vmlinux ex_kernel_image_only = Some image_banner \<and>
   k_kdir ex_kernel_image_only = None \<and>
   k_outdir ex_kernel_image_only = None \<and>
   k_version ex_kernel_image_only = Some [5, 10] \<and>
   configure ex_ext ex_world (ex_kernel_image_only, 0) = (Inl TypeError, ex_kernel_image_only, 0) \<and>
   k_version (fst (snd (configure ex_ext ex_world (ex_kernel_image_only, 0)))) = Some [5, 10] \<and>
   kernel_version ex_ext ex_world (snd (configure ex_ext ex_world (ex_kernel_image_only, 0))) =
     (Inr [5, 10], ex_kernel_image_only, 0)"
  by (simp add: ex_kernel_image_only_def ex_kernel_def configure_def config_file_of_def
        and_then_def kernel_version_def detect_version_def)

section \<open>Verification: the method and the function\<close>

text \<open>
  What the method \<^verbatim>\<open>__extract_syscalls\<close> of an object with an image returns or raises is
  what the function \<open>extract_syscalls\<close> gives for the fields of the object and for the
  outcome of the property \<^verbatim>\<open>version\<close>.
\<close>

lemma kernel_version_dirs:
  "kernel_version ext W (k, w) = (r, k', w') \<Longrightarrow> k_kdir k' = k_kdir k \<and> k_rdir k' = k_rdir k"
  by (auto simp: kernel_version_def detect_version_def version_from_make_def and_then_def
           split: option.splits prod.splits sum.splits if_splits)

lemma kernel_extract_syscalls_result:
  assumes "k_vmlinux k = Some vmlinux"
  shows "fst (kernel_extract_syscalls ext W (k, w)) =
         extract_syscalls ext (k_arch k) vmlinux (k_kdir k) (k_rdir k)
           (fst (kernel_version ext W (k\<lparr>k_arch := adjust_abi ext (k_arch k) vmlinux\<rparr>, w)))"
proof (cases "arch_bits32 (k_arch k) \<noteq> elf_bits32 vmlinux")
  case True
  with assms show ?thesis by (simp add: kernel_extract_syscalls_def extract_syscalls_def)
next
  case False
  let ?arch = "adjust_abi ext (k_arch k) vmlinux"
  let ?k = "k\<lparr>k_arch := ?arch\<rparr>"
  obtain r k' w' where kv: "kernel_version ext W (?k, w) = (r, k', w')"
    by (cases "kernel_version ext W (?k, w)")
  from kernel_version_dirs [OF kv] have dirs: "k_kdir k' = k_kdir k" "k_rdir k' = k_rdir k"
    by simp_all
  show ?thesis
    using assms False kv dirs
    by (cases "resolve_table ?arch vmlinux"; cases r)
       (auto simp: kernel_extract_syscalls_def extract_syscalls_def Let_def and_then_def
             split: option.splits)
qed

end
